theory Spec2Isabelle
  imports Main "HOL-Library.AList" "HOL-Library.Word"
begin

section \<open>JavaScript values\<close>

text \<open>
  The request handler takes and produces dynamically typed values (\<open>data: any\<close>, parsed
  JSON bodies).  They are modelled as trees.  An object is the list of its own enumerable
  properties in the order \<open>Object.entries\<close> yields them.  Numbers are the integers from
  \<open>-2^53\<close> to \<open>2^53 - 1\<close> (a 54-bit word, read as signed): a double holds each of them
  exactly and \<open>String\<close> prints it in plain decimal.  Strings are lists of 8-bit characters.
\<close>

datatype js =
    Undefined
  | Null
  | Bool bool
  | Num "54 word"
  | Str string
  | Arr "js list"
  | Obj "(string \<times> js) list"

datatype HTTPMethod = Get | Post | Patch | Head | Put | Delete | Connect | Options | Trace

record api_error =
  err_path :: string
  err_message :: js
  err_method :: HTTPMethod
  err_code :: js
  err_httpStatus :: int

text \<open>
  Everything the code can throw: \<open>new Error(msg)\<close>, the \<open>TypeError\<close> of a property read
  on \<open>null\<close>/\<open>undefined\<close> or of calling a missing method, the \<open>SyntaxError\<close> of
  \<open>JSON.parse\<close>, a rejection of the transport's \<open>send()\<close>, an error thrown inside the
  form-data library, and \<open>DiscordAPIError\<close>.
\<close>

datatype error =
    Error string
  | TypeError
  | SyntaxError
  | TransportError string
  | FormDataError string
  | DiscordAPIError api_error

fun truthy :: "js \<Rightarrow> bool" where
  "truthy Undefined = False"
| "truthy Null = False"
| "truthy (Bool b) = b"
| "truthy (Num n) = (n \<noteq> 0)"
| "truthy (Str s) = (s \<noteq> [])"
| "truthy (Arr xs) = True"
| "truthy (Obj kvs) = True"

fun typeof :: "js \<Rightarrow> string" where
  "typeof Undefined = ''undefined''"
| "typeof Null = ''object''"
| "typeof (Bool b) = ''boolean''"
| "typeof (Num n) = ''number''"
| "typeof (Str s) = ''string''"
| "typeof (Arr xs) = ''object''"
| "typeof (Obj kvs) = ''object''"

text \<open>
  \<open>v.k\<close> for the property names this program reads (\<open>reason\<close>, \<open>files\<close>, \<open>name\<close>,
  \<open>file\<close>, \<open>errors\<close>, \<open>message\<close>, \<open>code\<close>, \<open>_errors\<close>): none of them is an index,
  \<open>length\<close> or a prototype member, so only an object can carry one.  Reading a property
  of \<open>null\<close> or \<open>undefined\<close> throws a \<open>TypeError\<close>: every read in the model is
  guarded by \<open>nullish\<close>, and \<open>field\<close> is the value read otherwise.
\<close>

definition nullish :: "js \<Rightarrow> bool" where
  "nullish v = (v = Undefined \<or> v = Null)"

fun field :: "js \<Rightarrow> string \<Rightarrow> js" where
  "field (Obj kvs) k = (case map_of kvs k of None \<Rightarrow> Undefined | Some v \<Rightarrow> v)"
| "field v k = Undefined"

text \<open>\<open>delete v.k\<close>: removes the property from an object, does nothing on a primitive.\<close>

fun delete_prop :: "js \<Rightarrow> string \<Rightarrow> js" where
  "delete_prop (Obj kvs) k = Obj (AList.delete k kvs)"
| "delete_prop v k = v"

subsection \<open>Conversion to string\<close>

definition digit_char :: "nat \<Rightarrow> char" where
  "digit_char d = char_of (48 + d)"

fun string_of_nat :: "nat \<Rightarrow> string" where
  "string_of_nat n = (if n < 10 then [digit_char n] else string_of_nat (n div 10) @ [digit_char (n mod 10)])"

definition string_of_int :: "int \<Rightarrow> string" where
  "string_of_int i = (if i < 0 then CHR ''-'' # string_of_nat (nat (- i)) else string_of_nat (nat i))"

fun intercalate :: "string \<Rightarrow> string list \<Rightarrow> string" where
  "intercalate sep [] = []"
| "intercalate sep [x] = x"
| "intercalate sep (x # y # ys) = x @ sep @ intercalate sep (y # ys)"

text \<open>
  \<open>String(v)\<close>, as template literals, \<open>Array.prototype.join\<close> and \<open>encodeURIComponent\<close>
  apply it.  \<open>join\<close> renders \<open>null\<close> and \<open>undefined\<close> elements as the empty string.
\<close>

fun toString :: "js \<Rightarrow> string" where
  "toString Undefined = ''undefined''"
| "toString Null = ''null''"
| "toString (Bool b) = (if b then ''true'' else ''false'')"
| "toString (Num n) = string_of_int (sint n)"
| "toString (Str s) = s"
| "toString (Arr xs) =
     intercalate '','' (map (\<lambda>x. if nullish x then [] else toString x) xs)"
| "toString (Obj kvs) = ''[object Object]''"

definition join :: "js list \<Rightarrow> string \<Rightarrow> string" where
  "join xs sep = intercalate sep (map (\<lambda>x. if nullish x then [] else toString x) xs)"

subsection \<open>String built-ins\<close>

text \<open>
  \<open>String.prototype.includes\<close> and \<open>startsWith\<close> (substring and prefix tests), \<open>trim\<close>,
  \<open>isNaN(Number(k))\<close> for a string \<open>k\<close> (the StringNumericLiteral grammar of ECMAScript)
  and \<open>encodeURIComponent\<close>, on 8-bit characters read as code points.
\<close>

definition startsWith :: "string \<Rightarrow> string \<Rightarrow> bool" where
  "startsWith s p = (take (length p) s = p)"

fun includes_str :: "string \<Rightarrow> string \<Rightarrow> bool" where
  "includes_str [] t = (t = [])"
| "includes_str (c # s) t = (startsWith (c # s) t \<or> includes_str s t)"

definition is_space :: "char \<Rightarrow> bool" where
  "is_space c = ((of_char c :: nat) \<in> {9, 10, 11, 12, 13, 32, 160})"

definition trim :: "string \<Rightarrow> string" where
  "trim s = rev (dropWhile is_space (rev (dropWhile is_space s)))"

definition is_digit :: "char \<Rightarrow> bool" where
  "is_digit c = (48 \<le> (of_char c :: nat) \<and> (of_char c :: nat) \<le> 57)"

definition is_hex_digit :: "char \<Rightarrow> bool" where
  "is_hex_digit c = (is_digit c \<or> c \<in> set ''abcdefABCDEF'')"

definition exponent_opt :: "string \<Rightarrow> bool" where
  "exponent_opt s =
     (case s of
        [] \<Rightarrow> True
      | c # r \<Rightarrow> (c = CHR ''e'' \<or> c = CHR ''E'') \<and>
          (let d = (case r of [] \<Rightarrow> [] | g # r' \<Rightarrow> if g = CHR ''+'' \<or> g = CHR ''-'' then r' else r)
           in d \<noteq> [] \<and> list_all is_digit d))"

definition unsigned_decimal :: "string \<Rightarrow> bool" where
  "unsigned_decimal s =
     (s = ''Infinity'' \<or>
      (let ds = takeWhile is_digit s; r = dropWhile is_digit s in
       if ds \<noteq> [] then
         (case r of
            [] \<Rightarrow> True
          | c # r' \<Rightarrow> if c = CHR ''.'' then exponent_opt (dropWhile is_digit r') else exponent_opt r)
       else
         (case r of
            [] \<Rightarrow> False
          | c # r' \<Rightarrow> c = CHR ''.'' \<and> takeWhile is_digit r' \<noteq> [] \<and> exponent_opt (dropWhile is_digit r'))))"

definition non_decimal_integer :: "string \<Rightarrow> bool" where
  "non_decimal_integer s =
     (case s of
        z # x # ds \<Rightarrow> z = CHR ''0'' \<and> ds \<noteq> [] \<and>
          ((x \<in> set ''xX'' \<and> list_all is_hex_digit ds) \<or>
           (x \<in> set ''oO'' \<and> list_all (\<lambda>c. c \<in> set ''01234567'') ds) \<or>
           (x \<in> set ''bB'' \<and> list_all (\<lambda>c. c \<in> set ''01'') ds))
      | _ \<Rightarrow> False)"

definition isNaN_Number :: "string \<Rightarrow> bool" where
  "isNaN_Number k =
     (let t = trim k in
      \<not> (t = [] \<or> non_decimal_integer t \<or>
         unsigned_decimal (case t of [] \<Rightarrow> [] | c # r \<Rightarrow> if c = CHR ''+'' \<or> c = CHR ''-'' then r else t)))"

definition hex_digit :: "nat \<Rightarrow> char" where
  "hex_digit n = ''0123456789ABCDEF'' ! (n mod 16)"

definition percent :: "nat \<Rightarrow> string" where
  "percent b = [CHR ''%'', hex_digit (b div 16), hex_digit b]"

definition unreserved :: "char \<Rightarrow> bool" where
  "unreserved c =
     (let n = (of_char c :: nat) in
      (48 \<le> n \<and> n \<le> 57) \<or> (65 \<le> n \<and> n \<le> 90) \<or> (97 \<le> n \<and> n \<le> 122) \<or>
      n \<in> {33, 39, 40, 41, 42, 45, 46, 95, 126})"

definition encode_char :: "char \<Rightarrow> string" where
  "encode_char c =
     (let n = (of_char c :: nat) in
      if unreserved c then [c]
      else if n < 128 then percent n
      else percent (192 + n div 64) @ percent (128 + n mod 64))"

definition encodeURIComponent :: "js \<Rightarrow> string" where
  "encodeURIComponent v = concat (map encode_char (toString v))"

section \<open>DiscordAPIError\<close>

text \<open>\<open>Object.entries\<close>: own properties of an object, indexed elements of an array or string.\<close>

fun entries :: "js \<Rightarrow> error + (string \<times> js) list" where
  "entries Undefined = Inl TypeError"
| "entries Null = Inl TypeError"
| "entries (Bool b) = Inr []"
| "entries (Num n) = Inr []"
| "entries (Str s) = Inr (zip (map string_of_nat [0..<length s]) (map (\<lambda>c. Str [c]) s))"
| "entries (Arr xs) = Inr (zip (map string_of_nat [0..<length xs]) xs)"
| "entries (Obj kvs) = Inr kvs"

text \<open>\<open>v._errors.map(e => e.message).join(" ")\<close>, for a truthy \<open>v._errors\<close>.\<close>

definition errors_text :: "js \<Rightarrow> error + string" where
  "errors_text errs =
     (case errs of
        Arr es \<Rightarrow> if list_ex nullish es then Inl TypeError
                  else Inr (join (map (\<lambda>e. field e ''message'') es) '' '')
      | _ \<Rightarrow> Inl TypeError)"

definition newKey :: "string \<Rightarrow> string \<Rightarrow> string" where
  "newKey key k =
     (if key \<noteq> [] then (if isNaN_Number k then key @ ''.'' @ k else key @ ''['' @ k @ '']'') else k)"

function flattenErrors :: "js \<Rightarrow> string \<Rightarrow> error + string list" where
  "flattenErrors obj key =
     (case entries obj of
        Inl e \<Rightarrow> Inl e
      | Inr kvs \<Rightarrow>
          foldl (\<lambda>messages (k, v).
              case messages of
                Inl e \<Rightarrow> Inl e
              | Inr ms \<Rightarrow>
                  if k = ''message'' then Inr ms
                  else if nullish v then Inl TypeError
                  else if truthy (field v ''_errors'') then
                    (case errors_text (field v ''_errors'') of
                       Inl e \<Rightarrow> Inl e
                     | Inr t \<Rightarrow> Inr (ms @ [newKey key k @ '': '' @ t]))
                  else if truthy (field v ''code'') \<or> truthy (field v ''message'') then
                    Inr (ms @ [trim ((if truthy (field v ''code'') then toString (field v ''code'') @ '': '' else [])
                                     @ toString (field v ''message''))])
                  else if typeof v = ''string'' then Inr (ms @ [toString v])
                  else
                    (case flattenErrors v (newKey key k) of
                       Inl e \<Rightarrow> Inl e
                     | Inr sub \<Rightarrow> Inr (ms @ sub)))
            (Inr []) kvs)"
  by pat_completeness auto

lemma entries_size:
  "entries obj = Inr kvs \<Longrightarrow> (k, v) \<in> set kvs \<Longrightarrow> typeof v \<noteq> ''string'' \<Longrightarrow> size v < size obj"
proof (cases obj)
  case (Str s)
  assume "entries obj = Inr kvs" "(k, v) \<in> set kvs" "typeof v \<noteq> ''string''"
  with Str have "v \<in> set (map (\<lambda>c. Str [c]) s)" by (auto dest: set_zip_rightD)
  with \<open>typeof v \<noteq> ''string''\<close> show ?thesis by auto
next
  case (Arr xs)
  assume "entries obj = Inr kvs" "(k, v) \<in> set kvs"
  with Arr have "v \<in> set xs" by (auto dest: set_zip_rightD)
  then have "size v \<le> size_list size xs" by (rule size_list_estimation') simp
  with Arr show ?thesis by simp
next
  case (Obj ps)
  assume "entries obj = Inr kvs" "(k, v) \<in> set kvs"
  with Obj have "(k, v) \<in> set ps" by simp
  then have "size_prod (\<lambda>x. 0) size (k, v) \<le> size_list (size_prod (\<lambda>x. 0) size) ps"
    by (rule size_list_estimation') simp
  with Obj show ?thesis by simp
qed auto

termination flattenErrors
  by (relation "measure (\<lambda>(v, key). size v)") (auto elim: entries_size)

declare flattenErrors.simps [simp del]

text \<open>
  The constructor: \<open>flattenErrors(error.errors || error).join("\\n")\<close>, then the message
  built from \<open>error.message\<close> and the flattened lines.  \<open>error\<close> is the parsed JSON body
  or the body text; the default \<open>key\<close> is the empty string.
\<close>

definition new_DiscordAPIError :: "string \<Rightarrow> js \<Rightarrow> HTTPMethod \<Rightarrow> int \<Rightarrow> error + api_error" where
  "new_DiscordAPIError path error method status =
     (if nullish error then Inl TypeError
      else
        case flattenErrors (if truthy (field error ''errors'') then field error ''errors'' else error) [] of
          Inl e \<Rightarrow> Inl e
        | Inr msgs \<Rightarrow>
            let flattened = intercalate [CHR 0x0A] msgs in
            Inr \<lparr> err_path = path,
                  err_message =
                    (if truthy (field error ''message'') \<and> flattened \<noteq> []
                     then Str (toString (field error ''message'') @ [CHR 0x0A] @ flattened)
                     else if truthy (field error ''message'') then field error ''message''
                     else Str flattened),
                  err_method = method,
                  err_code = field error ''code'',
                  err_httpStatus = status \<rparr>)"

section \<open>RequestHandler\<close>

record response =
  statusCode :: int
  resp_headers :: "(string \<times> string) list"
  resp_body :: "string option"

datatype form_field =
    FileField string js js
  | ValueField string string

datatype request_body = JsonBody js | RawBody js | FormBody "form_field list"

record http_request =
  rq_url :: string
  rq_method :: HTTPMethod
  rq_path :: string
  rq_headers :: "(string \<times> string) list"
  rq_query :: "js option"
  rq_body :: "request_body option"
  rq_timeout :: "nat option"

datatype event =
    RequestEv string HTTPMethod string js
  | DoneEv response
  | RequestErrorEv error

datatype effect = Emit event | Send http_request

text \<open>What the transport answers to one \<open>send()\<close>: a response, or a rejection.\<close>

datatype transport = Responds response | Fails string

text \<open>
  The world a call runs in: the answers the remote side gives to the sends still to come,
  and the effects performed so far (events emitted, requests sent), in order.
\<close>

record world =
  script :: "transport list"
  trace :: "effect list"

text \<open>The state of the promise a call of \<open>request\<close> returns.\<close>

datatype outcome = Resolved js | Rejected error | Pending

text \<open>
  The handler instance (\<open>this.apiURL\<close>, \<open>this.options.headers\<close>) and what the module takes
  from elsewhere: \<open>Constants.OK_STATUS_CODES\<close> (a constant of another
  module), \<open>JSON.parse\<close> (\<open>None\<close> where it throws), \<open>JSON.stringify\<close>, and of the
  form-data library the headers \<open>form.getHeaders()\<close> returns and what it refuses:
  \<open>form_append value filename\<close> is the message of the error
  \<open>form.append(field, value, {filename})\<close> throws for a file (\<open>None\<close> when the field is
  appended), \<open>form_buffer value\<close> the message of the error \<open>form.getBuffer()\<close> throws when
  it reaches an appended file (\<open>None\<close> when it turns the file into bytes).
\<close>

record handler =
  apiURL :: string
  options_headers :: "(string \<times> string) list"

record deps =
  OK_STATUS_CODES :: "int list"
  JSON_parse :: "string \<Rightarrow> js option"
  JSON_stringify :: "js \<Rightarrow> string"
  form_getHeaders :: "(string \<times> string) list"
  form_append :: "js \<Rightarrow> js \<Rightarrow> string option"
  form_buffer :: "js \<Rightarrow> string option"

definition emit :: "event \<Rightarrow> world \<Rightarrow> world" where
  "emit ev w = w\<lparr>trace := trace w @ [Emit ev]\<rparr>"

text \<open>
  \<open>send()\<close> performs the network call and takes the next answer of the script.  With no
  answer left the transport never answers (\<open>None\<close>): the call is made and whoever awaits it
  waits forever.
\<close>

definition send :: "http_request \<Rightarrow> js \<Rightarrow> world \<Rightarrow> (error + response) option \<times> js \<times> world" where
  "send rq data w =
     (case script w of
        [] \<Rightarrow> (None, data, w\<lparr>trace := trace w @ [Send rq]\<rparr>)
      | t # ts \<Rightarrow>
          (Some (case t of Responds r \<Rightarrow> Inr r | Fails m \<Rightarrow> Inl (TransportError m)),
           data, \<lparr>script = ts, trace = trace w @ [Send rq]\<rparr>))"

text \<open>A sender that throws before it sends: the world is as it was.\<close>

definition throw :: "error \<Rightarrow> js \<Rightarrow> world \<Rightarrow> (error + response) option \<times> js \<times> world" where
  "throw e data w = (Some (Inl e), data, w)"

text \<open>Object spread / \<open>Object.assign\<close> of two header objects: later keys win.\<close>

definition assign :: "(string \<times> string) list \<Rightarrow> (string \<times> string) list \<Rightarrow> (string \<times> string) list" where
  "assign a b = fold (\<lambda>(k, v). AList.update k v) b a"

text \<open>
  \<open>_request\<close>.  The result carries the payload as the call leaves it, since
  \<open>delete data.reason\<close> changes the caller's object.
\<close>

definition priv_request ::
  "handler \<Rightarrow> string \<Rightarrow> HTTPMethod \<Rightarrow> js \<Rightarrow> bool \<Rightarrow> int \<Rightarrow> world
     \<Rightarrow> (error + response) option \<times> js \<times> world" where
  "priv_request h endpoint method data useParams amount w =
     (if amount \<ge> 3 then throw (Error ''Max amount of rety attempts reached'') data w
      else if typeof data \<noteq> ''string'' \<and> nullish data then throw TypeError data w
      else
        let has_reason = (typeof data \<noteq> ''string'' \<and> truthy (field data ''reason''));
            headers = (if has_reason
                       then [(''X-Audit-Log-Reason'', encodeURIComponent (field data ''reason''))]
                       else []);
            data' = (if has_reason then delete_prop data ''reason'' else data);
            req = \<lparr> rq_url = apiURL h, rq_method = method, rq_path = endpoint,
                    rq_headers = assign (options_headers h) headers,
                    rq_query = None, rq_body = None, rq_timeout = None \<rparr>
        in
          if useParams then send (req\<lparr>rq_query := Some data'\<rparr>) data' w
          else if truthy data' \<and> typeof data' = ''object''
          then send (req\<lparr>rq_body := Some (JsonBody data')\<rparr>) data' w
          else if truthy data' then send (req\<lparr>rq_body := Some (RawBody data')\<rparr>) data' w
          else send req data' w)"

text \<open>\<open>data.files.every(f => !!f.name && !!f.file)\<close>: stops at the first entry that fails.\<close>

fun every_named :: "js list \<Rightarrow> error + bool" where
  "every_named [] = Inr True"
| "every_named (f # fs) =
     (if nullish f then Inl TypeError
      else if truthy (field f ''name'') \<and> truthy (field f ''file'') then every_named fs
      else Inr False)"

text \<open>
  The \<open>for (const file of data.files)\<close> loop: appends one form field per file and deletes
  \<open>file.file\<close> from the descriptor, until \<open>form.append\<close> throws.  Returns the error thrown,
  if any, the descriptors as the loop leaves them and the form.
\<close>

fun append_files ::
  "deps \<Rightarrow> js list \<Rightarrow> nat \<Rightarrow> form_field list \<Rightarrow> error option \<times> js list \<times> form_field list" where
  "append_files dp [] index form = (None, [], form)"
| "append_files dp (file # rest) index form =
     (case form_append dp (field file ''file'') (field file ''name'') of
        Some m \<Rightarrow> (Some (FormDataError m), file # rest, form)
      | None \<Rightarrow>
          (let form' = form @ [FileField (''files['' @ string_of_nat index @ '']'')
                                 (field file ''file'') (field file ''name'')];
               file' = delete_prop file ''file'';
               (e, rest', form'') = append_files dp rest (index + 1) form'
           in (e, file' # rest', form'')))"

text \<open>The payload after the loop: \<open>data.files\<close> holds the descriptors the loop changed.\<close>

fun set_prop :: "js \<Rightarrow> string \<Rightarrow> js \<Rightarrow> js" where
  "set_prop (Obj kvs) k v = Obj (AList.update k v kvs)"
| "set_prop d k v = d"

text \<open>
  \<open>form.getBuffer()\<close> goes through the fields in order and throws at the first file it
  cannot turn into bytes; a field whose value is a string never fails.
\<close>

fun getBuffer_error :: "deps \<Rightarrow> form_field list \<Rightarrow> error option" where
  "getBuffer_error dp [] = None"
| "getBuffer_error dp (FileField n v fn # rest) =
     (case form_buffer dp v of
        Some m \<Rightarrow> Some (FormDataError m)
      | None \<Rightarrow> getBuffer_error dp rest)"
| "getBuffer_error dp (ValueField n v # rest) = getBuffer_error dp rest"

definition priv_multiPartRequest ::
  "deps \<Rightarrow> handler \<Rightarrow> string \<Rightarrow> HTTPMethod \<Rightarrow> js \<Rightarrow> int \<Rightarrow> world
     \<Rightarrow> (error + response) option \<times> js \<times> world" where
  "priv_multiPartRequest dp h endpoint method data amount w =
     (if amount \<ge> 3 then throw (Error ''Max amount of rety attempts reached'') data w
      else if nullish data then throw TypeError data w
      else
        case (case field data ''files'' of
                Arr fs \<Rightarrow> every_named fs
              | _ \<Rightarrow> Inr False) of
          Inl e \<Rightarrow> throw e data w
        | Inr every \<Rightarrow>
            let (thrown, data', form) =
                  (if every
                   then (case field data ''files'' of
                           Arr fs \<Rightarrow> (let (e, fs', form) = append_files dp fs 0 []
                                      in (e, set_prop data ''files'' (Arr fs'), form))
                         | _ \<Rightarrow> (None, data, []))
                   else (None, data, []))
            in
              case thrown of
                Some e \<Rightarrow> throw e data' w
              | None \<Rightarrow>
                  let form' = form @ [ValueField ''payload_json'' (JSON_stringify dp data')];
                      newHeaders = assign (options_headers h) (form_getHeaders dp)
                  in
                    case getBuffer_error dp form' of
                      Some e \<Rightarrow> throw e data' w
                    | None \<Rightarrow>
                        send \<lparr> rq_url = apiURL h, rq_method = method, rq_path = endpoint,
                               rq_headers = newHeaders, rq_query = None,
                               rq_body = Some (FormBody form'), rq_timeout = Some 15000 \<rparr>
                             data' w)"

lemma send_script:
  "send rq d w = (Some r, d', w') \<Longrightarrow> length (script w') < length (script w)"
  by (auto simp: send_def split: list.splits)

lemma priv_request_script:
  "priv_request h endpoint method data useParams amount w = (Some (Inr r), d', w')
     \<Longrightarrow> length (script w') < length (script w)"
  by (auto simp: priv_request_def throw_def Let_def split: if_splits dest: send_script)

lemma priv_multiPartRequest_script:
  "priv_multiPartRequest dp h endpoint method data amount w = (Some (Inr r), d', w')
     \<Longrightarrow> length (script w') < length (script w)"
  by (auto simp: priv_multiPartRequest_def throw_def Let_def
           split: if_splits sum.splits prod.splits option.splits dest: send_script)

text \<open>\<open>await request.json()\<close> and \<open>request.body.toString()\<close> of the transport's response.\<close>

definition response_json :: "deps \<Rightarrow> response \<Rightarrow> error + js" where
  "response_json dp r =
     (case resp_body r of
        None \<Rightarrow> Inl SyntaxError
      | Some b \<Rightarrow> (case JSON_parse dp b of None \<Rightarrow> Inl SyntaxError | Some v \<Rightarrow> Inr v))"

definition response_text :: "response \<Rightarrow> error + js" where
  "response_text r = (case resp_body r of None \<Rightarrow> Inl TypeError | Some b \<Rightarrow> Inr (Str b))"

text \<open>
  The payload \<open>request\<close> works with: a parameter left out or \<open>undefined\<close> takes its default
  \<open>{}\<close>, and \<open>if (typeof data === "number") data = String(data)\<close>.
\<close>

definition payload_arg :: "js \<Rightarrow> js" where
  "payload_arg data0 =
     (case data0 of Undefined \<Rightarrow> Obj [] | Num n \<Rightarrow> Str (toString (Num n)) | _ \<Rightarrow> data0)"

text \<open>The choice of the sender by \<open>dataType\<close> (the \<open>if\<close> chain that opens the \<open>try\<close> block).\<close>

definition dispatch_send ::
  "deps \<Rightarrow> handler \<Rightarrow> string \<Rightarrow> HTTPMethod \<Rightarrow> string \<Rightarrow> js \<Rightarrow> int \<Rightarrow> world
     \<Rightarrow> (error + response) option \<times> js \<times> world" where
  "dispatch_send dp h endpoint method dataType data amount w =
     (if dataType = ''json''
      then priv_request h endpoint method data
             (method = Get \<or> includes_str endpoint ''/bans'' \<or> includes_str endpoint ''/prune'')
             amount w
      else if dataType = ''multipart''
      then priv_multiPartRequest dp h endpoint method data amount w
      else throw (Error ''Forbidden dataType. Use json or multipart'') data w)"

lemma dispatch_send_script:
  "dispatch_send dp h endpoint method dataType data amount w = (Some (Inr r), d', w')
     \<Longrightarrow> length (script w') < length (script w)"
  by (auto simp: dispatch_send_def throw_def split: if_splits
           dest: priv_request_script priv_multiPartRequest_script)

text \<open>
  \<open>request\<close>: the executor of the promise the call returns, run to the end.  The result is
  the state that promise is left in and the world after the call.  In
  \<open>return this.request(endpoint, method, dataType, data, amount++)\<close> the argument is the
  value of \<open>amount\<close> before the increment, and neither \<open>res\<close> nor \<open>rej\<close> is called with
  the promise of the inner call: the value an executor returns is dropped.  The random
  request id and the stack traces copied onto errors are left out.
\<close>

function request ::
  "deps \<Rightarrow> handler \<Rightarrow> string \<Rightarrow> HTTPMethod \<Rightarrow> string \<Rightarrow> js \<Rightarrow> int \<Rightarrow> world \<Rightarrow> outcome \<times> world" where
  "request dp h endpoint method dataType data0 amount w =
     (let data = payload_arg data0;
          w1 = emit (RequestEv endpoint method dataType data) w
      in
        case dispatch_send dp h endpoint method dataType data amount w1 of
          (None, d, w2) \<Rightarrow> (Pending, w2)
        | (Some (Inl error), d, w2) \<Rightarrow> (Rejected error, emit (RequestErrorEv error) w2)
        | (Some (Inr rsp), d, w2) \<Rightarrow>
            if statusCode rsp \<noteq> 0 \<and> statusCode rsp \<notin> set (OK_STATUS_CODES dp)
               \<and> statusCode rsp \<notin> set [429, 502]
            then
              (let error =
                     (case (if (case map_of (resp_headers rsp) ''content-type'' of
                                  None \<Rightarrow> False
                                | Some ct \<Rightarrow> startsWith ct ''application/json'')
                            then response_json dp rsp else response_text rsp) of
                        Inl e \<Rightarrow> e
                      | Inr body \<Rightarrow>
                          (case new_DiscordAPIError endpoint body method (statusCode rsp) of
                             Inl e \<Rightarrow> e
                           | Inr e \<Rightarrow> DiscordAPIError e))
               in (Rejected error, emit (RequestErrorEv error) w2))
            else if statusCode rsp \<noteq> 0 \<and> statusCode rsp \<in> set [429, 502]
            then
              (case request dp h endpoint method dataType d amount w2 of
                 (inner, w3) \<Rightarrow> (Pending, w3))
            else
              (let w3 = emit (DoneEv rsp) w2 in
               case resp_body rsp of
                 Some b \<Rightarrow>
                   (case JSON_parse dp b of
                      None \<Rightarrow> (Resolved Undefined, w3)
                    | Some v \<Rightarrow> (Resolved v, w3))
               | None \<Rightarrow> (Resolved Undefined, w3)))"
  by pat_completeness auto

termination request
  by (relation "measure (\<lambda>(dp, h, endpoint, method, dataType, data0, amount, w). length (script w))")
     (auto simp: emit_def dest!: dispatch_send_script [OF sym])

declare request.simps [simp del]

section \<open>Notions used to state the properties\<close>

subsection \<open>What a JSON request carries\<close>

text \<open>
  The payload as \<open>_request\<close> leaves it (a truthy \<open>reason\<close> of a payload that is not a
  string is deleted), the body \<open>_request\<close> gives a request for a payload, and the two ways
  a request can carry the payload: as its query, or as its body.
\<close>

definition without_reason :: "js \<Rightarrow> js" where
  "without_reason d =
     (if typeof d \<noteq> ''string'' \<and> truthy (field d ''reason'') then delete_prop d ''reason'' else d)"

definition body_for :: "js \<Rightarrow> request_body option" where
  "body_for d =
     (if truthy d \<and> typeof d = ''object'' then Some (JsonBody d)
      else if truthy d then Some (RawBody d) else None)"

definition carries :: "bool \<Rightarrow> js \<Rightarrow> http_request \<Rightarrow> bool" where
  "carries useParams d rq =
     (if useParams then rq_query rq = Some d \<and> rq_body rq = None
      else rq_query rq = None \<and> rq_body rq = body_for d)"

subsection \<open>The multipart form\<close>

text \<open>
  The form field the loop appends for the file descriptor at a position, and the test
  \<open>!!f.name && !!f.file\<close> on a descriptor.
\<close>

definition file_field :: "nat \<times> js \<Rightarrow> form_field" where
  "file_field p = (case p of (i, f) \<Rightarrow>
     FileField (''files['' @ string_of_nat i @ '']'') (field f ''file'') (field f ''name''))"

definition named :: "js \<Rightarrow> bool" where
  "named f = (truthy (field f ''name'') \<and> truthy (field f ''file''))"

text \<open>A descriptor whose file the form-data library takes, under its name as filename.\<close>

definition accepted :: "deps \<Rightarrow> js \<Rightarrow> bool" where
  "accepted dp f =
     (form_append dp (field f ''file'') (field f ''name'') = None \<and>
      form_buffer dp (field f ''file'') = None)"

subsection \<open>The flattening, as the specification words it\<close>

text \<open>
  The specification describes \<open>flattenErrors\<close> as a walk over the keys of the error object
  that yields lines: a key named "message" is skipped; a value carrying an \<open>_errors\<close>
  array yields the key path, a colon and the entries' messages joined with spaces; a
  value carrying \<open>code\<close> or \<open>message\<close> yields "code: message", the code left out when
  absent; a string yields itself; any other value is walked in turn under its key path.
  The key path puts a numeric key in brackets after its parent and any other key after a
  dot.  \<open>claimed_flattenErrors\<close> follows these words to the letter: a value carries a
  property when it has one, a key is numeric when it is a non-empty string of digits, and
  the line of a code and message is the two texts around ": ".
\<close>

definition children :: "js \<Rightarrow> (string \<times> js) list" where
  "children obj = (case entries obj of Inl e \<Rightarrow> [] | Inr kvs \<Rightarrow> kvs)"

definition has_prop :: "js \<Rightarrow> string \<Rightarrow> bool" where
  "has_prop v k = (field v k \<noteq> Undefined)"

definition claimed_key_path :: "string \<Rightarrow> string \<Rightarrow> string" where
  "claimed_key_path parent k =
     (if parent = [] then k
      else if k \<noteq> [] \<and> list_all is_digit k then parent @ ''['' @ k @ '']''
      else parent @ ''.'' @ k)"

definition claimed_code_message :: "js \<Rightarrow> string" where
  "claimed_code_message v =
     (if has_prop v ''code'' then toString (field v ''code'') @ '': '' else [])
     @ toString (field v ''message'')"

definition spec_errors_line :: "string \<Rightarrow> js list \<Rightarrow> string" where
  "spec_errors_line path es = path @ '': '' @ join (map (\<lambda>e. field e ''message'') es) '' ''"

function claimed_flattenErrors :: "js \<Rightarrow> string \<Rightarrow> string list" where
  "claimed_flattenErrors obj parent =
     concat (map (\<lambda>(k, v).
        if k = ''message'' then []
        else case field v ''_errors'' of
          Arr es \<Rightarrow> [spec_errors_line (claimed_key_path parent k) es]
        | _ \<Rightarrow>
            if has_prop v ''code'' \<or> has_prop v ''message'' then [claimed_code_message v]
            else if typeof v = ''string'' then [toString v]
            else claimed_flattenErrors v (claimed_key_path parent k))
       (children obj))"
  by pat_completeness auto

termination claimed_flattenErrors
  by (relation "measure (\<lambda>(v, key). size v)")
     (auto simp: children_def split: sum.splits intro: entries_size [OF sym])

declare claimed_flattenErrors.simps [simp del]

text \<open>
  The same walk with the three readings the code has: a value carries a property when the
  property is truthy (so a falsy code is left out), a key is numeric when \<open>Number(k)\<close> is
  not NaN (the empty key and "Infinity" included), and the line of a code and message is
  trimmed of white space at both ends.  \<open>spec_flattenErrors\<close> has no accumulator and no
  exception.
\<close>

definition spec_key_path :: "string \<Rightarrow> string \<Rightarrow> string" where
  "spec_key_path parent k =
     (if parent = [] then k
      else if isNaN_Number k then parent @ ''.'' @ k
      else parent @ ''['' @ k @ '']'')"

definition spec_code_message :: "js \<Rightarrow> string" where
  "spec_code_message v =
     trim ((if truthy (field v ''code'') then toString (field v ''code'') @ '': '' else [])
           @ toString (field v ''message''))"

function spec_flattenErrors :: "js \<Rightarrow> string \<Rightarrow> string list" where
  "spec_flattenErrors obj parent =
     concat (map (\<lambda>(k, v).
        if k = ''message'' then []
        else if truthy (field v ''_errors'')
        then (case field v ''_errors'' of
                Arr es \<Rightarrow> [spec_errors_line (spec_key_path parent k) es]
              | _ \<Rightarrow> [])
        else if truthy (field v ''code'') \<or> truthy (field v ''message'')
        then [spec_code_message v]
        else if typeof v = ''string'' then [toString v]
        else spec_flattenErrors v (spec_key_path parent k))
       (children obj))"
  by pat_completeness auto

termination spec_flattenErrors
  by (relation "measure (\<lambda>(v, key). size v)")
     (auto simp: children_def split: sum.splits intro: entries_size [OF sym])

declare spec_flattenErrors.simps [simp del]

text \<open>
  A structured validation error object: no value to walk is \<open>null\<close> or \<open>undefined\<close>, and a
  truthy \<open>_errors\<close> is an array of entries none of which is \<open>null\<close> or \<open>undefined\<close>.
\<close>

function wf_errors :: "js \<Rightarrow> bool" where
  "wf_errors obj =
     (\<not> nullish obj \<and>
      list_all (\<lambda>(k, v).
         k = ''message'' \<or>
         (\<not> nullish v \<and>
          (if truthy (field v ''_errors'')
           then (case field v ''_errors'' of
                   Arr es \<Rightarrow> list_all (\<lambda>e. \<not> nullish e) es
                 | _ \<Rightarrow> False)
           else if truthy (field v ''code'') \<or> truthy (field v ''message'') then True
           else if typeof v = ''string'' then True
           else wf_errors v)))
        (children obj))"
  by pat_completeness auto

termination wf_errors
  by (relation "measure size")
     (auto simp: children_def split: sum.splits intro: entries_size [OF sym])

declare wf_errors.simps [simp del]

section \<open>A concrete handler\<close>

text \<open>
  An instance to run the definitions on: the status codes the library counts as success,
  a serialiser for the values above (strings unescaped), a parser that knows the texts of
  a table, a form that takes strings and numbers as files under a string filename, and a
  handler with a token.
\<close>

fun stringify :: "js \<Rightarrow> string" where
  "stringify Undefined = ''null''"
| "stringify Null = ''null''"
| "stringify (Bool b) = (if b then ''true'' else ''false'')"
| "stringify (Num n) = string_of_int (sint n)"
| "stringify (Str s) = [CHR 0x22] @ s @ [CHR 0x22]"
| "stringify (Arr xs) = ''['' @ intercalate '','' (map stringify xs) @ '']''"
| "stringify (Obj kvs) =
     ''{'' @ intercalate '','' (map (\<lambda>(k, v). [CHR 0x22] @ k @ [CHR 0x22] @ '':'' @ stringify v) kvs) @ ''}''"

definition parse_table :: "js list \<Rightarrow> string \<Rightarrow> js option" where
  "parse_table vs = map_of (map (\<lambda>v. (stringify v, v)) vs)"

definition gateway :: js where
  "gateway = Obj [(''url'', Str ''wss://x'')]"

definition dp0 :: deps where
  "dp0 = \<lparr> OK_STATUS_CODES = [200, 201, 204, 304],
           JSON_parse = parse_table [gateway],
           JSON_stringify = stringify,
           form_getHeaders = [(''content-type'', ''multipart/form-data; boundary=b'')],
           form_append = (\<lambda>v fn. case v of
                            Arr xs \<Rightarrow> Some ''Arrays are not supported.''
                          | _ \<Rightarrow> (case fn of
                                   Str s \<Rightarrow> (case v of
                                               Obj kvs \<Rightarrow> Some ''stream.on is not a function''
                                             | _ \<Rightarrow> None)
                                 | _ \<Rightarrow> Some ''The path argument must be of type string'')),
           form_buffer = (\<lambda>v. case v of
                            Bool b \<Rightarrow> Some ''The first argument must be of type string or Buffer''
                          | _ \<Rightarrow> None) \<rparr>"

definition h0 :: handler where
  "h0 = \<lparr> apiURL = ''https://discord.com/api/v10'',
          options_headers = [(''User-Agent'', ''Discordbot''), (''Authorization'', ''Bot T'')] \<rparr>"

definition respond :: "int \<Rightarrow> string \<Rightarrow> transport" where
  "respond status text =
     Responds \<lparr> statusCode = status, resp_headers = [(''content-type'', ''application/json'')],
                resp_body = Some text \<rparr>"

definition start :: "transport list \<Rightarrow> world" where
  "start ts = \<lparr> script = ts, trace = [] \<rparr>"

definition sends :: "world \<Rightarrow> http_request list" where
  "sends w = concat (map (\<lambda>e. case e of Send rq \<Rightarrow> [rq] | Emit ev \<Rightarrow> []) (trace w))"

text \<open>An error body of the remote API, with one value of each kind the walk distinguishes.\<close>

definition invalid_form_body :: js where
  "invalid_form_body =
     Obj [(''code'', Num 50035),
          (''message'', Str ''Invalid Form Body''),
          (''errors'', Obj [
             (''message'', Str ''not a field''),
             (''activities'', Obj [(''0'', Obj [(''platform'', Obj [(''_errors'', Arr [
                 Obj [(''code'', Str ''BASE_TYPE_CHOICES''), (''message'', Str ''Value must be one of x.'')],
                 Obj [(''code'', Str ''OTHER''), (''message'', Str ''Try again.'')]])])])]),
             (''name'', Obj [(''code'', Str ''TOO_LONG''), (''message'', Str ''Too long'')]),
             (''nick'', Obj [(''message'', Str ''Bad nick '')]),
             (''note'', Str ''plain text'')])]"

section \<open>Properties of the senders\<close>

lemma every_named_error: "every_named fs = Inl e \<Longrightarrow> e = TypeError"
  by (induction fs) (auto split: if_splits)

lemma send_not_local_error: "fst (send rq d w) \<noteq> Some (Inl (Error m))"
  by (simp add: send_def split: list.splits transport.splits)

lemma append_files_error:
  "append_files dp fs i form = (Some e, fs', form') \<Longrightarrow> \<exists>m. e = FormDataError m"
  by (induction fs arbitrary: i form fs' form')
     (auto simp: Let_def split: option.splits prod.splits)

lemma getBuffer_error_kind: "getBuffer_error dp form = Some e \<Longrightarrow> \<exists>m. e = FormDataError m"
  by (induction dp form rule: getBuffer_error.induct) (auto split: option.splits)

text \<open>
  The multipart sender ends in a throw that leaves the world as it was, with an error
  which below the cap is a \<open>TypeError\<close> or comes from the form-data library, or in a send.
\<close>

lemma priv_multiPartRequest_shape:
  "(\<exists>e d'. priv_multiPartRequest dp h endpoint method data amount w = throw e d' w \<and>
       (amount < 3 \<longrightarrow> e = TypeError \<or> (\<exists>m. e = FormDataError m))) \<or>
   (\<exists>rq d'. priv_multiPartRequest dp h endpoint method data amount w = send rq d' w)"
proof (cases "3 \<le> amount \<or> nullish data")
  case True
  then show ?thesis by (auto simp: priv_multiPartRequest_def)
next
  case False
  define ev where "ev = (case field data ''files'' of Arr fs \<Rightarrow> every_named fs | _ \<Rightarrow> Inr False)"
  have evk: "ev = Inl e \<Longrightarrow> e = TypeError" for e
    by (auto simp: ev_def split: js.splits dest: every_named_error)
  show ?thesis
  proof (cases ev)
    case (Inl e)
    with False evk [OF Inl] have
      "priv_multiPartRequest dp h endpoint method data amount w = throw TypeError data w"
      by (simp add: priv_multiPartRequest_def ev_def [symmetric])
    then show ?thesis by blast
  next
    case (Inr every)
    define lp where "lp = (if every
                   then (case field data ''files'' of
                           Arr fs \<Rightarrow> (let (e, fs', form) = append_files dp fs 0 []
                                      in (e, set_prop data ''files'' (Arr fs'), form))
                         | _ \<Rightarrow> (None, data, []))
                   else (None, data, []))"
    obtain thrown d' form where lpe: "lp = (thrown, d', form)" by (cases lp) auto
    have lpk: "thrown = Some e \<Longrightarrow> \<exists>m. e = FormDataError m" for e
      using lpe
      by (auto simp: lp_def Let_def split: if_splits js.splits prod.splits dest: append_files_error)
    from False Inr have unf: "priv_multiPartRequest dp h endpoint method data amount w =
       (case thrown of
                Some e \<Rightarrow> throw e d' w
              | None \<Rightarrow>
                  let form' = form @ [ValueField ''payload_json'' (JSON_stringify dp d')];
                      newHeaders = assign (options_headers h) (form_getHeaders dp)
                  in
                    case getBuffer_error dp form' of
                      Some e \<Rightarrow> throw e d' w
                    | None \<Rightarrow>
                        send \<lparr> rq_url = apiURL h, rq_method = method, rq_path = endpoint,
                               rq_headers = newHeaders, rq_query = None,
                               rq_body = Some (FormBody form'), rq_timeout = Some 15000 \<rparr>
                             d' w)"
      by (simp add: priv_multiPartRequest_def ev_def [symmetric] lp_def [symmetric] lpe)
    show ?thesis
    proof (cases thrown)
      case (Some e)
      with unf lpk [OF Some] show ?thesis by auto
    next
      case None
      show ?thesis
      proof (cases "getBuffer_error dp (form @ [ValueField ''payload_json'' (JSON_stringify dp d')])")
        case (Some e)
        with unf None getBuffer_error_kind [OF Some] show ?thesis
          by (auto simp: Let_def)
      next
        case gb: None
        with unf None show ?thesis
          by (auto simp: Let_def)
      qed
    qed
  qed
qed

text \<open>
  Claim C4.  Called with an attempt counter of 3 or more, the JSON sender and the
  multipart sender both throw the error "Max amount of rety attempts reached" and leave
  the world as it was: nothing is sent and no answer of the transport is used.  Called
  with a counter below 3, neither of them ends with that error.
\<close>

theorem senders_retry_cap:
  "(3 \<le> amount \<longrightarrow>
      priv_request h endpoint method data useParams amount w
        = (Some (Inl (Error ''Max amount of rety attempts reached'')), data, w) \<and>
      priv_multiPartRequest dp h endpoint method data amount w
        = (Some (Inl (Error ''Max amount of rety attempts reached'')), data, w)) \<and>
   (amount < 3 \<longrightarrow>
      fst (priv_request h endpoint method data useParams amount w)
        \<noteq> Some (Inl (Error ''Max amount of rety attempts reached'')) \<and>
      fst (priv_multiPartRequest dp h endpoint method data amount w)
        \<noteq> Some (Inl (Error ''Max amount of rety attempts reached'')))"
proof (intro conjI impI)
  assume "3 \<le> amount"
  then show "priv_request h endpoint method data useParams amount w
        = (Some (Inl (Error ''Max amount of rety attempts reached'')), data, w)"
    by (simp add: priv_request_def throw_def)
  from \<open>3 \<le> amount\<close> show "priv_multiPartRequest dp h endpoint method data amount w
        = (Some (Inl (Error ''Max amount of rety attempts reached'')), data, w)"
    by (simp add: priv_multiPartRequest_def throw_def)
next
  assume "amount < 3"
  then show "fst (priv_request h endpoint method data useParams amount w)
        \<noteq> Some (Inl (Error ''Max amount of rety attempts reached''))"
    by (simp add: priv_request_def throw_def Let_def send_not_local_error)
  from \<open>amount < 3\<close> priv_multiPartRequest_shape [of dp h endpoint "method" data amount w]
  show "fst (priv_multiPartRequest dp h endpoint method data amount w)
        \<noteq> Some (Inl (Error ''Max amount of rety attempts reached''))"
    by (auto simp: throw_def send_not_local_error)
qed

theorem senders_retry_cap_witness:
  "priv_request h0 ''/gateway'' Get (Obj []) True 3 (start [])
     = (Some (Inl (Error ''Max amount of rety attempts reached'')), Obj [], start []) \<and>
   priv_multiPartRequest dp0 h0 ''/gateway'' Get (Obj []) 3 (start [])
     = (Some (Inl (Error ''Max amount of rety attempts reached'')), Obj [], start []) \<and>
   fst (priv_request h0 ''/gateway'' Get (Obj []) True 2 (start []))
     \<noteq> Some (Inl (Error ''Max amount of rety attempts reached'')) \<and>
   fst (priv_multiPartRequest dp0 h0 ''/gateway'' Get (Obj []) 2 (start []))
     \<noteq> Some (Inl (Error ''Max amount of rety attempts reached''))"
  using senders_retry_cap [of 3 h0 "''/gateway''" Get "Obj []" True "start []" dp0]
        senders_retry_cap [of 2 h0 "''/gateway''" Get "Obj []" True "start []" dp0]
  by simp

section \<open>Properties of request\<close>

text \<open>
  Claim C5.  A call of \<open>request\<close> with a data type other than "json" and "multipart" is
  rejected with the error "Forbidden dataType. Use json or multipart".  It emits the
  request event and the request error event and nothing else: no request is sent, and
  the result is the same whatever the transport would answer.
\<close>

theorem forbidden_dataType_rejects:
  assumes "dataType \<noteq> ''json''" and "dataType \<noteq> ''multipart''"
  shows "request dp h endpoint method dataType data amount w =
           (Rejected (Error ''Forbidden dataType. Use json or multipart''),
            emit (RequestErrorEv (Error ''Forbidden dataType. Use json or multipart''))
              (emit (RequestEv endpoint method dataType (payload_arg data)) w))
         \<and> sends (snd (request dp h endpoint method dataType data amount w)) = sends w
         \<and> script (snd (request dp h endpoint method dataType data amount w)) = script w"
  using assms
  by (simp add: request.simps dispatch_send_def throw_def Let_def emit_def sends_def)

theorem forbidden_dataType_rejects_witness:
  "request dp0 h0 ''/gateway'' Get ''xml'' (Obj []) 0 (start [respond 200 []]) =
           (Rejected (Error ''Forbidden dataType. Use json or multipart''),
            \<lparr> script = [respond 200 []],
              trace = [Emit (RequestEv ''/gateway'' Get ''xml'' (Obj [])),
                       Emit (RequestErrorEv (Error ''Forbidden dataType. Use json or multipart''))] \<rparr>)
   \<and> sends (snd (request dp0 h0 ''/gateway'' Get ''xml'' (Obj []) 0 (start [respond 200 []]))) = []
   \<and> script (snd (request dp0 h0 ''/gateway'' Get ''xml'' (Obj []) 0 (start [respond 200 []])))
       = [respond 200 []]"
proof -
  have a: "''xml'' \<noteq> ''json''" and b: "''xml'' \<noteq> ''multipart''" by simp_all
  note inst = forbidden_dataType_rejects [OF a b, of dp0 h0 "''/gateway''" Get "Obj []" 0
                "start [respond 200 []]"]
  show ?thesis
    by (simp add: inst) (simp add: payload_arg_def sends_def start_def emit_def)
qed

lemma request_retry:
  assumes "dispatch_send dp h endpoint method dataType (payload_arg data0) amount
             (emit (RequestEv endpoint method dataType (payload_arg data0)) w) = (Some (Inr rsp), d, w2)"
      and "statusCode rsp = 429 \<or> statusCode rsp = 502"
  shows "request dp h endpoint method dataType data0 amount w
           = (Pending, snd (request dp h endpoint method dataType d amount w2))"
  using assms
  by (subst request.simps) (auto simp: Let_def split: prod.splits)

lemma request_success:
  assumes "dispatch_send dp h endpoint method dataType (payload_arg data0) amount
             (emit (RequestEv endpoint method dataType (payload_arg data0)) w) = (Some (Inr rsp), d, w2)"
      and "statusCode rsp \<in> set (OK_STATUS_CODES dp)"
      and "statusCode rsp \<noteq> 429" and "statusCode rsp \<noteq> 502"
  shows "request dp h endpoint method dataType data0 amount w
           = (Resolved (case resp_body rsp of
                          None \<Rightarrow> Undefined
                        | Some b \<Rightarrow> (case JSON_parse dp b of None \<Rightarrow> Undefined | Some v \<Rightarrow> v)),
              emit (DoneEv rsp) w2)"
  using assms
  by (subst request.simps) (auto simp: Let_def split: option.splits)

lemma request_no_retry:
  assumes "dispatch_send dp h endpoint method dataType (payload_arg data0) amount
             (emit (RequestEv endpoint method dataType (payload_arg data0)) w) = (r, d, w2)"
      and "\<forall>rsp. r = Some (Inr rsp) \<longrightarrow> statusCode rsp \<noteq> 429 \<and> statusCode rsp \<noteq> 502"
  shows "\<exists>tr. trace (snd (request dp h endpoint method dataType data0 amount w)) = trace w2 @ tr
            \<and> (\<forall>rq. Send rq \<notin> set tr)"
  using assms
  by (subst request.simps)
     (auto simp: Let_def emit_def split: prod.splits option.splits sum.splits)

lemma send_trace: "send rq d w = (r, d', w') \<Longrightarrow> trace w' = trace w @ [Send rq]"
  by (auto simp: send_def split: list.splits)

lemma dispatch_send_trace:
  "dispatch_send dp h endpoint method dataType d amount w = (r, d', w')
     \<Longrightarrow> \<exists>tr. trace w' = trace w @ tr"
  using priv_multiPartRequest_shape [of dp h endpoint "method" d amount w]
  by (auto simp: dispatch_send_def priv_request_def throw_def Let_def
           split: if_splits dest: send_trace send_trace [OF sym])

lemma request_trace_extends:
  "\<exists>tr. trace (snd (request dp h endpoint method dataType data0 amount w)) = trace w @ tr"
proof (induction "length (script w)" arbitrary: w data0 rule: less_induct)
  case less
  let ?w1 = "emit (RequestEv endpoint method dataType (payload_arg data0)) w"
  obtain r d w2 where ds:
    "dispatch_send dp h endpoint method dataType (payload_arg data0) amount ?w1 = (r, d, w2)"
    by (cases "dispatch_send dp h endpoint method dataType (payload_arg data0) amount ?w1") auto
  from dispatch_send_trace [OF ds] obtain tr1 where tr1: "trace w2 = trace w @ tr1"
    by (auto simp: emit_def)
  show ?case
  proof (cases "\<exists>rsp. r = Some (Inr rsp) \<and> (statusCode rsp = 429 \<or> statusCode rsp = 502)")
    case True
    then obtain rsp where r: "r = Some (Inr rsp)"
      and st: "statusCode rsp = 429 \<or> statusCode rsp = 502" by blast
    from ds r have "length (script w2) < length (script w)"
      by (auto dest: dispatch_send_script simp: emit_def)
    from less [OF this] obtain tr2 where
      "trace (snd (request dp h endpoint method dataType d amount w2)) = trace w2 @ tr2"
      by blast
    with tr1 request_retry [OF ds [unfolded r] st] show ?thesis by simp
  next
    case False
    with request_no_retry [OF ds] tr1 show ?thesis by auto
  qed
qed

lemma request_first_effects:
  assumes "dispatch_send dp h endpoint method dataType (payload_arg data0) amount
             (emit (RequestEv endpoint method dataType (payload_arg data0)) w) = (r, d, w2)"
  shows "\<exists>tr. trace (snd (request dp h endpoint method dataType data0 amount w)) = trace w2 @ tr"
proof (cases "\<exists>rsp. r = Some (Inr rsp) \<and> (statusCode rsp = 429 \<or> statusCode rsp = 502)")
  case True
  then obtain rsp where r: "r = Some (Inr rsp)"
    and st: "statusCode rsp = 429 \<or> statusCode rsp = 502" by blast
  from request_retry [OF assms [unfolded r] st]
       request_trace_extends [of dp h endpoint "method" dataType d amount w2]
  show ?thesis by simp
next
  case False
  with request_no_retry [OF assms] show ?thesis by auto
qed

text \<open>
  Claim C9.  When the sender returns a response whose status is one of the success codes
  (and not 429 or 502), the call resolves: with \<open>undefined\<close> when the response has no
  body or the body does not parse as JSON (the empty body included), with the parsed value
  when it parses.  The done event is emitted and the call is never rejected.
\<close>

theorem success_resolves:
  assumes "dispatch_send dp h endpoint method dataType (payload_arg data0) amount
             (emit (RequestEv endpoint method dataType (payload_arg data0)) w) = (Some (Inr rsp), d, w2)"
      and "statusCode rsp \<in> set (OK_STATUS_CODES dp)"
      and "statusCode rsp \<noteq> 429" and "statusCode rsp \<noteq> 502"
  shows "request dp h endpoint method dataType data0 amount w
           = (Resolved (case resp_body rsp of
                          None \<Rightarrow> Undefined
                        | Some b \<Rightarrow> (case JSON_parse dp b of None \<Rightarrow> Undefined | Some v \<Rightarrow> v)),
              emit (DoneEv rsp) w2)"
  using assms
  by (subst request.simps) (auto simp: Let_def split: option.splits)

theorem success_resolves_witness:
  "fst (request dp0 h0 ''/gateway'' Get ''json'' (Obj []) 0 (start [respond 200 (stringify gateway)]))
     = Resolved gateway \<and>
   fst (request dp0 h0 ''/gateway'' Get ''json'' (Obj []) 0 (start [respond 204 []]))
     = Resolved Undefined"
proof -
  let ?rq = "\<lparr> rq_url = apiURL h0, rq_method = Get, rq_path = ''/gateway'',
               rq_headers = options_headers h0, rq_query = Some (Obj []),
               rq_body = None, rq_timeout = None \<rparr>"
  let ?w2 = "\<lparr>script = [], trace = [Emit (RequestEv ''/gateway'' Get ''json'' (Obj [])), Send ?rq]\<rparr>"
  let ?a = "\<lparr> statusCode = 200, resp_headers = [(''content-type'', ''application/json'')],
              resp_body = Some (stringify gateway) \<rparr>"
  let ?b = "\<lparr> statusCode = 204, resp_headers = [(''content-type'', ''application/json'')],
              resp_body = Some [] \<rparr>"
  have sa: "dispatch_send dp0 h0 ''/gateway'' Get ''json'' (payload_arg (Obj [])) 0
              (emit (RequestEv ''/gateway'' Get ''json'' (payload_arg (Obj [])))
                 (start [respond 200 (stringify gateway)]))
            = (Some (Inr ?a), Obj [], ?w2)"
    by (simp add: dispatch_send_def priv_request_def Let_def send_def nullish_def assign_def
                  payload_arg_def emit_def start_def respond_def)
  have sb: "dispatch_send dp0 h0 ''/gateway'' Get ''json'' (payload_arg (Obj [])) 0
              (emit (RequestEv ''/gateway'' Get ''json'' (payload_arg (Obj [])))
                 (start [respond 204 []]))
            = (Some (Inr ?b), Obj [], ?w2)"
    by (simp add: dispatch_send_def priv_request_def Let_def send_def nullish_def assign_def
                  payload_arg_def emit_def start_def respond_def)
  have oka: "statusCode ?a \<in> set (OK_STATUS_CODES dp0)"
    and okb: "statusCode ?b \<in> set (OK_STATUS_CODES dp0)"
    by (simp_all add: dp0_def)
  have pa: "JSON_parse dp0 (stringify gateway) = Some gateway"
    and pb: "JSON_parse dp0 [] = None"
    by (simp_all add: dp0_def parse_table_def gateway_def)
  from success_resolves [OF sa oka] success_resolves [OF sb okb] pa pb
  show ?thesis by simp
qed

subsection \<open>Retries\<close>

lemma get_gateway_send:
  "dispatch_send dp0 h0 ''/gateway'' Get ''json'' (Obj []) 0 \<lparr>script = t # ts, trace = tr\<rparr>
     = (Some (case t of Responds r \<Rightarrow> Inr r | Fails m \<Rightarrow> Inl (TransportError m)), Obj [],
        \<lparr>script = ts,
          trace = tr @ [Send \<lparr> rq_url = apiURL h0, rq_method = Get, rq_path = ''/gateway'',
                     rq_headers = options_headers h0, rq_query = Some (Obj []),
                     rq_body = None, rq_timeout = None \<rparr>]\<rparr>)"
  by (simp add: dispatch_send_def priv_request_def Let_def send_def nullish_def assign_def)

lemma get_gateway_429s:
  "length (sends (snd (request dp0 h0 ''/gateway'' Get ''json'' (Obj []) 0
       \<lparr>script = replicate n (respond 429 []) @ [respond 200 []], trace = tr\<rparr>)))
   = length (sends \<lparr>script = [], trace = tr\<rparr>) + Suc n"
proof (induction n arbitrary: tr)
  case 0
  let ?r = "\<lparr> statusCode = 200, resp_headers = [(''content-type'', ''application/json'')],
              resp_body = Some [] \<rparr>"
  have s: "dispatch_send dp0 h0 ''/gateway'' Get ''json'' (payload_arg (Obj [])) 0
             (emit (RequestEv ''/gateway'' Get ''json'' (payload_arg (Obj [])))
                \<lparr>script = replicate 0 (respond 429 []) @ [respond 200 []], trace = tr\<rparr>)
           = (Some (Inr ?r), Obj [],
              \<lparr>script = [],
                trace = tr @ [Emit (RequestEv ''/gateway'' Get ''json'' (Obj [])),
                  Send \<lparr> rq_url = apiURL h0, rq_method = Get, rq_path = ''/gateway'',
                     rq_headers = options_headers h0, rq_query = Some (Obj []),
                     rq_body = None, rq_timeout = None \<rparr>]\<rparr>)"
    by (simp add: payload_arg_def emit_def get_gateway_send respond_def)
  have ok: "statusCode ?r \<in> set (OK_STATUS_CODES dp0)" by (simp add: dp0_def)
  show ?case
    by (subst request_success [OF s ok]) (simp_all add: emit_def sends_def)
next
  case (Suc n)
  let ?r = "\<lparr> statusCode = 429, resp_headers = [(''content-type'', ''application/json'')],
              resp_body = Some [] \<rparr>"
  have s: "dispatch_send dp0 h0 ''/gateway'' Get ''json'' (payload_arg (Obj [])) 0
             (emit (RequestEv ''/gateway'' Get ''json'' (payload_arg (Obj [])))
                \<lparr>script = replicate (Suc n) (respond 429 []) @ [respond 200 []], trace = tr\<rparr>)
           = (Some (Inr ?r), Obj [],
              \<lparr>script = replicate n (respond 429 []) @ [respond 200 []],
                trace = tr @ [Emit (RequestEv ''/gateway'' Get ''json'' (Obj [])),
                  Send \<lparr> rq_url = apiURL h0, rq_method = Get, rq_path = ''/gateway'',
                     rq_headers = options_headers h0, rq_query = Some (Obj []),
                     rq_body = None, rq_timeout = None \<rparr>]\<rparr>)"
    by (simp add: payload_arg_def emit_def get_gateway_send respond_def)
  have r: "statusCode ?r = 429 \<or> statusCode ?r = 502" by simp
  show ?case
    by (subst request_retry [OF s r]) (simp add: Suc.IH, simp add: sends_def)
qed

text \<open>
  A retry is sent from the payload as the first send left it: after \<open>delete data.reason\<close>
  the second request has no \<open>X-Audit-Log-Reason\<close> header.
\<close>

lemma retry_loses_reason_header:
  "map (\<lambda>rq. map_of (rq_headers rq) ''X-Audit-Log-Reason'')
     (sends (snd (request dp0 h0 ''/guilds/1/bans/2'' Put ''json'' (Obj [(''reason'', Str ''spam'')]) 0
                    (start [respond 502 [], respond 204 []]))))
   = [Some ''spam'', None]"
  by code_simp

text \<open>
  Claim C1.  What the code does where the claim promises at most three sends: the
  re-dispatch after a 429 or 502 passes the attempt counter it was given
  (\<open>amount++\<close> yields the old value), so the senders' test \<open>amount >= 3\<close> never fires.
  A call that starts at attempt 0 and is answered 429 \<open>n\<close> times and then 200 performs
  \<open>n + 1\<close> sends, for every \<open>n\<close>.
\<close>

theorem retries_do_not_count_attempts:
  "length (sends (snd (request dp0 h0 ''/gateway'' Get ''json'' (Obj []) 0
       (start (replicate n (respond 429 []) @ [respond 200 []]))))) = n + 1"
  using get_gateway_429s [of n "[]"] by (simp add: start_def sends_def)

text \<open>
  Claim C2.  What the code does where the claim promises a settled result: answered 200
  at once, the call resolves with the decoded body; answered 429 and then 200, the inner
  call receives the 200 and completes, every answer of the transport is used up, and the
  promise of the outer call is left pending.
\<close>

theorem retried_call_never_settles:
  "request dp0 h0 ''/gateway'' Get ''json'' (Obj []) 0 (start [respond 200 (stringify gateway)])
     = (Resolved gateway,
        \<lparr> script = [],
          trace = [Emit (RequestEv ''/gateway'' Get ''json'' (Obj [])),
                   Send \<lparr> rq_url = apiURL h0, rq_method = Get, rq_path = ''/gateway'',
                          rq_headers = options_headers h0, rq_query = Some (Obj []),
                          rq_body = None, rq_timeout = None \<rparr>,
                   Emit (DoneEv \<lparr> statusCode = 200,
                                  resp_headers = [(''content-type'', ''application/json'')],
                                  resp_body = Some (stringify gateway) \<rparr>)] \<rparr>) \<and>
   request dp0 h0 ''/gateway'' Get ''json'' (Obj []) 0
       (start [respond 429 [], respond 200 (stringify gateway)])
     = (Pending,
        \<lparr> script = [],
          trace = [Emit (RequestEv ''/gateway'' Get ''json'' (Obj [])),
                   Send \<lparr> rq_url = apiURL h0, rq_method = Get, rq_path = ''/gateway'',
                          rq_headers = options_headers h0, rq_query = Some (Obj []),
                          rq_body = None, rq_timeout = None \<rparr>,
                   Emit (RequestEv ''/gateway'' Get ''json'' (Obj [])),
                   Send \<lparr> rq_url = apiURL h0, rq_method = Get, rq_path = ''/gateway'',
                          rq_headers = options_headers h0, rq_query = Some (Obj []),
                          rq_body = None, rq_timeout = None \<rparr>,
                   Emit (DoneEv \<lparr> statusCode = 200,
                                  resp_headers = [(''content-type'', ''application/json'')],
                                  resp_body = Some (stringify gateway) \<rparr>)] \<rparr>)"
  by code_simp

subsection \<open>Query or body\<close>

lemma field_delete_prop: "field (delete_prop d k) k = Undefined"
  by (cases d) (simp_all add: delete_conv)

lemma without_reason_idem: "without_reason (without_reason d) = without_reason d"
  by (simp add: without_reason_def field_delete_prop)

lemma payload_arg_without_reason:
  "payload_arg (without_reason (payload_arg x)) = without_reason (payload_arg x)"
  by (cases x) (auto simp: payload_arg_def without_reason_def split: js.splits)

lemma priv_request_effect:
  assumes "priv_request h endpoint method d u amount w = (r, d', w')"
  shows "(w' = w \<and> (\<exists>e. r = Some (Inl e))) \<or>
         (d' = without_reason d \<and> (\<exists>rq. trace w' = trace w @ [Send rq] \<and> carries u d' rq))"
  using assms
  by (auto simp: priv_request_def throw_def Let_def without_reason_def carries_def body_for_def
           split: if_splits dest!: send_trace
           simp: send_def split: list.splits)

lemma request_json_trace:
  "\<exists>tr. trace (snd (request dp h endpoint method ''json'' data0 amount w)) = trace w @ tr \<and>
      (\<forall>rq. Send rq \<in> set tr \<longrightarrow>
         carries (method = Get \<or> includes_str endpoint ''/bans'' \<or> includes_str endpoint ''/prune'')
           (without_reason (payload_arg data0)) rq)"
proof (induction "length (script w)" arbitrary: w data0 rule: less_induct)
  case less
  let ?u = "method = Get \<or> includes_str endpoint ''/bans'' \<or> includes_str endpoint ''/prune''"
  let ?p = "without_reason (payload_arg data0)"
  let ?ev = "Emit (RequestEv endpoint method ''json'' (payload_arg data0))"
  let ?w1 = "emit (RequestEv endpoint method ''json'' (payload_arg data0)) w"
  obtain r d w2 where ds:
    "dispatch_send dp h endpoint method ''json'' (payload_arg data0) amount ?w1 = (r, d, w2)"
    by (cases "dispatch_send dp h endpoint method ''json'' (payload_arg data0) amount ?w1") auto
  then have pr: "priv_request h endpoint method (payload_arg data0) ?u amount ?w1 = (r, d, w2)"
    by (simp add: dispatch_send_def)
  from priv_request_effect [OF pr]
  have step: "\<exists>tr1. trace w2 = trace w @ tr1 \<and> (\<forall>rq. Send rq \<in> set tr1 \<longrightarrow> carries ?u ?p rq)"
  proof
    assume "w2 = ?w1 \<and> (\<exists>e. r = Some (Inl e))"
    then have "trace w2 = trace w @ [?ev]" by (simp add: emit_def)
    then show ?thesis by auto
  next
    assume "d = ?p \<and> (\<exists>rq. trace w2 = trace ?w1 @ [Send rq] \<and> carries ?u d rq)"
    then obtain rq where "trace w2 = trace w @ [?ev, Send rq]" and "carries ?u ?p rq"
      by (auto simp: emit_def)
    then show ?thesis by auto
  qed
  then obtain tr1 where tr1: "trace w2 = trace w @ tr1"
    and q1: "\<forall>rq. Send rq \<in> set tr1 \<longrightarrow> carries ?u ?p rq" by blast
  show ?case
  proof (cases "\<exists>rsp. r = Some (Inr rsp) \<and> (statusCode rsp = 429 \<or> statusCode rsp = 502)")
    case True
    then obtain rsp where r: "r = Some (Inr rsp)"
      and st: "statusCode rsp = 429 \<or> statusCode rsp = 502" by blast
    from priv_request_effect [OF pr] r have d: "d = ?p" by auto
    from ds r have "length (script w2) < length (script w)"
      by (auto dest: dispatch_send_script simp: emit_def)
    from less [OF this, of d] obtain tr2 where
      tr2: "trace (snd (request dp h endpoint method ''json'' d amount w2)) = trace w2 @ tr2"
      and q2: "\<forall>rq. Send rq \<in> set tr2 \<longrightarrow> carries ?u (without_reason (payload_arg d)) rq"
      by blast
    have "without_reason (payload_arg d) = ?p"
      by (simp add: d payload_arg_without_reason without_reason_idem)
    with q2 have q2': "\<forall>rq. Send rq \<in> set tr2 \<longrightarrow> carries ?u ?p rq" by simp
    from request_retry [OF ds [unfolded r] st] tr1 tr2
    have "trace (snd (request dp h endpoint method ''json'' data0 amount w)) = trace w @ (tr1 @ tr2)"
      by simp
    with q1 q2' show ?thesis by (intro exI [of _ "tr1 @ tr2"]) auto
  next
    case False
    with request_no_retry [OF ds] obtain tr2 where
      "trace (snd (request dp h endpoint method ''json'' data0 amount w)) = trace w2 @ tr2"
      and "\<forall>rq. Send rq \<notin> set tr2"
      by auto
    with tr1 q1 show ?thesis by (intro exI [of _ "tr1 @ tr2"]) auto
  qed
qed

lemma set_sends: "set (sends w) = {rq. Send rq \<in> set (trace w)}"
  by (auto simp: sends_def split: effect.splits)

lemma send_ex: "\<exists>r w'. send rq d w = (r, d, w') \<and> trace w' = trace w @ [Send rq]"
  by (auto simp: send_def split: list.splits)

lemma priv_request_sends:
  assumes "amount < 3" and "\<not> nullish d"
  shows "\<exists>r rq w'. priv_request h endpoint method d u amount w = (r, without_reason d, w')
           \<and> trace w' = trace w @ [Send rq]
           \<and> carries u (without_reason d) rq
           \<and> map_of (rq_headers rq) ''X-Audit-Log-Reason''
               = (if typeof d \<noteq> ''string'' \<and> truthy (field d ''reason'')
                  then Some (encodeURIComponent (field d ''reason''))
                  else map_of (options_headers h) ''X-Audit-Log-Reason'')"
proof -
  let ?hr = "typeof d \<noteq> ''string'' \<and> truthy (field d ''reason'')"
  let ?d = "without_reason d"
  let ?req = "\<lparr> rq_url = apiURL h, rq_method = method, rq_path = endpoint,
                rq_headers = assign (options_headers h)
                  (if ?hr then [(''X-Audit-Log-Reason'', encodeURIComponent (field d ''reason''))] else []),
                rq_query = None, rq_body = None, rq_timeout = None \<rparr>"
  let ?rq = "if u then ?req\<lparr>rq_query := Some ?d\<rparr>
             else if truthy ?d \<and> typeof ?d = ''object'' then ?req\<lparr>rq_body := Some (JsonBody ?d)\<rparr>
             else if truthy ?d then ?req\<lparr>rq_body := Some (RawBody ?d)\<rparr>
             else ?req"
  define rq where "rq = ?rq"
  from assms have eq: "priv_request h endpoint method d u amount w = send rq ?d w"
    by (simp add: priv_request_def Let_def without_reason_def rq_def)
  have c: "carries u ?d rq"
    by (simp add: carries_def body_for_def rq_def)
  have hd: "map_of (rq_headers rq) ''X-Audit-Log-Reason''
               = (if ?hr then Some (encodeURIComponent (field d ''reason''))
                  else map_of (options_headers h) ''X-Audit-Log-Reason'')"
    by (simp add: assign_def update_conv' rq_def)
  from send_ex [of rq ?d w] obtain r w' where
    "send rq ?d w = (r, ?d, w')" and "trace w' = trace w @ [Send rq]" by blast
  with eq c hd show ?thesis
    by (intro exI [of _ r] exI [of _ rq] exI [of _ w']) simp
qed

text \<open>
  Claim C7.  Every request a JSON dispatch sends, the retries included, carries the
  payload as query parameters exactly when the method is \<open>get\<close> or the endpoint contains
  "/bans" or "/prune": it then has the payload as its query and no body; otherwise it has
  no query and the payload, when truthy, is its body.  With an attempt counter below 3
  and a payload other than \<open>null\<close> at least one request is sent.
\<close>

theorem json_payload_query_or_body:
  "(\<forall>rq \<in> set (sends (snd (request dp h endpoint method ''json'' data0 amount (start ts)))).
      ((rq_query rq \<noteq> None)
         = (method = Get \<or> includes_str endpoint ''/bans'' \<or> includes_str endpoint ''/prune'')) \<and>
      (rq_query rq \<noteq> None \<longrightarrow>
         rq_query rq = Some (without_reason (payload_arg data0)) \<and> rq_body rq = None) \<and>
      (rq_query rq = None \<longrightarrow> rq_body rq = body_for (without_reason (payload_arg data0)))) \<and>
   (amount < 3 \<and> data0 \<noteq> Null \<longrightarrow>
      sends (snd (request dp h endpoint method ''json'' data0 amount (start ts))) \<noteq> [])"
proof (intro conjI ballI impI; (elim conjE)?)
  let ?u = "method = Get \<or> includes_str endpoint ''/bans'' \<or> includes_str endpoint ''/prune''"
  let ?res = "snd (request dp h endpoint method ''json'' data0 amount (start ts))"
  from request_json_trace [of dp h endpoint "method" data0 amount "start ts"]
  have all: "\<forall>rq \<in> set (sends ?res). carries ?u (without_reason (payload_arg data0)) rq"
    by (auto simp: set_sends start_def)
  { fix rq assume "rq \<in> set (sends ?res)"
    with all have c: "carries ?u (without_reason (payload_arg data0)) rq" by blast
    from c show "(rq_query rq \<noteq> None) = ?u" by (auto simp: carries_def split: if_splits)
    { assume "rq_query rq \<noteq> None"
      with c show "rq_query rq = Some (without_reason (payload_arg data0))" and "rq_body rq = None"
        by (auto simp: carries_def split: if_splits) }
    { assume "rq_query rq = None"
      with c show "rq_body rq = body_for (without_reason (payload_arg data0))"
        by (auto simp: carries_def split: if_splits) } }
  assume "amount < 3" and "data0 \<noteq> Null"
  then have nn: "\<not> nullish (payload_arg data0)"
    by (auto simp: nullish_def payload_arg_def split: js.splits)
  let ?w1 = "emit (RequestEv endpoint method ''json'' (payload_arg data0)) (start ts)"
  from priv_request_sends [OF \<open>amount < 3\<close> nn, of h endpoint "method" ?u ?w1]
  obtain r rq w2 where
    "dispatch_send dp h endpoint method ''json'' (payload_arg data0) amount ?w1
       = (r, without_reason (payload_arg data0), w2)" and "trace w2 = trace ?w1 @ [Send rq]"
    by (auto simp: dispatch_send_def)
  from request_first_effects [OF this(1)] this(2)
  have "Send rq \<in> set (trace ?res)" by auto
  then show "sends ?res \<noteq> []" using set_sends [of ?res] by auto
qed

theorem json_payload_query_or_body_witness:
  "(let rqs = sends (snd (request dp0 h0 ''/guilds/1/bans/2'' Put ''json''
                             (Obj [(''delete_message_days'', Num 7)]) 0 (start [respond 204 []])))
    in rqs \<noteq> [] \<and>
       list_all (\<lambda>rq. rq_query rq = Some (Obj [(''delete_message_days'', Num 7)]) \<and> rq_body rq = None) rqs) \<and>
   (let rqs = sends (snd (request dp0 h0 ''/channels/1/messages'' Post ''json''
                             (Obj [(''content'', Str ''hi'')]) 0 (start [respond 200 []])))
    in rqs \<noteq> [] \<and>
       list_all (\<lambda>rq. rq_query rq = None \<and> rq_body rq = Some (JsonBody (Obj [(''content'', Str ''hi'')]))) rqs)"
proof -
  have u1: "includes_str ''/guilds/1/bans/2'' ''/bans''"
    and u2: "\<not> includes_str ''/channels/1/messages'' ''/bans''"
    and u3: "\<not> includes_str ''/channels/1/messages'' ''/prune''"
    by (simp_all add: startsWith_def)
  have p1: "without_reason (payload_arg (Obj [(''delete_message_days'', Num 7)]))
              = Obj [(''delete_message_days'', Num 7)]"
    and p2: "without_reason (payload_arg (Obj [(''content'', Str ''hi'')])) = Obj [(''content'', Str ''hi'')]"
    and b2: "body_for (Obj [(''content'', Str ''hi'')]) = Some (JsonBody (Obj [(''content'', Str ''hi'')]))"
    by (simp_all add: without_reason_def payload_arg_def body_for_def)
  from json_payload_query_or_body [of dp0 h0 "''/guilds/1/bans/2''" Put
         "Obj [(''delete_message_days'', Num 7)]" 0 "[respond 204 []]"]
       json_payload_query_or_body [of dp0 h0 "''/channels/1/messages''" Post
         "Obj [(''content'', Str ''hi'')]" 0 "[respond 200 []]"]
       u1 u2 u3
  show ?thesis
    unfolding p1 p2 b2 Let_def list_all_iff by auto
qed

subsection \<open>The audit log reason\<close>

lemma encodeURIComponent_chars:
  "list_all (\<lambda>c. unreserved c \<or> c = CHR ''%'') (encodeURIComponent v)"
proof -
  have all: "\<forall>k \<in> set [0..<16]. unreserved (''0123456789ABCDEF'' ! k)"
    by code_simp
  have hex: "unreserved (hex_digit n)" for n
  proof -
    have "n mod 16 \<in> set [0..<16]" by simp
    with all show ?thesis unfolding hex_digit_def by blast
  qed
  have "list_all (\<lambda>c. unreserved c \<or> c = CHR ''%'') (encode_char c)" for c
    by (simp add: encode_char_def percent_def Let_def hex)
  then show ?thesis
    by (simp add: encodeURIComponent_def list_all_iff)
qed

text \<open>
  Claim C3, as amended.  For a JSON dispatch with an attempt counter below 3 whose payload
  is an object with a truthy \<open>reason\<close>, the first request sent has the header
  \<open>X-Audit-Log-Reason\<close> set to \<open>encodeURIComponent(reason)\<close>, made of unreserved characters
  and percent escapes only, and carries the payload without its \<open>reason\<close> property, as
  query or as JSON body.
\<close>

theorem json_reason_moves_to_header:
  assumes "amount < 3" and "truthy (field data0 ''reason'')"
  shows "\<exists>rq tr.
           trace (snd (request dp h endpoint method ''json'' data0 amount w))
             = trace w @ [Emit (RequestEv endpoint method ''json'' data0), Send rq] @ tr \<and>
           map_of (rq_headers rq) ''X-Audit-Log-Reason''
             = Some (encodeURIComponent (field data0 ''reason'')) \<and>
           list_all (\<lambda>c. unreserved c \<or> c = CHR ''%'') (encodeURIComponent (field data0 ''reason'')) \<and>
           (if method = Get \<or> includes_str endpoint ''/bans'' \<or> includes_str endpoint ''/prune''
            then rq_query rq = Some (delete_prop data0 ''reason'') \<and> rq_body rq = None
            else rq_query rq = None \<and> rq_body rq = Some (JsonBody (delete_prop data0 ''reason''))) \<and>
           field (delete_prop data0 ''reason'') ''reason'' = Undefined"
proof -
  let ?u = "method = Get \<or> includes_str endpoint ''/bans'' \<or> includes_str endpoint ''/prune''"
  from assms(2) obtain kvs where obj: "data0 = Obj kvs" by (cases data0) auto
  then have pa: "payload_arg data0 = data0" by (simp add: payload_arg_def)
  have nn: "\<not> nullish data0" and ty: "typeof data0 \<noteq> ''string''" using obj
    by (simp_all add: nullish_def)
  with assms(2) have wr: "without_reason data0 = delete_prop data0 ''reason''"
    by (simp add: without_reason_def)
  let ?w1 = "emit (RequestEv endpoint method ''json'' data0) w"
  from priv_request_sends [OF assms(1) nn, of h endpoint "method" ?u ?w1] ty assms(2) wr
  obtain r rq w2 where
    ds: "dispatch_send dp h endpoint method ''json'' (payload_arg data0) amount
           (emit (RequestEv endpoint method ''json'' (payload_arg data0)) w)
         = (r, delete_prop data0 ''reason'', w2)"
    and tr: "trace w2 = trace ?w1 @ [Send rq]"
    and c: "carries ?u (delete_prop data0 ''reason'') rq"
    and hd: "map_of (rq_headers rq) ''X-Audit-Log-Reason''
               = Some (encodeURIComponent (field data0 ''reason''))"
    by (auto simp: dispatch_send_def pa)
  from request_first_effects [OF ds] tr obtain tr' where
    t: "trace (snd (request dp h endpoint method ''json'' data0 amount w))
          = trace w @ [Emit (RequestEv endpoint method ''json'' data0), Send rq] @ tr'"
    by (auto simp: emit_def)
  have bf: "body_for (delete_prop data0 ''reason'') = Some (JsonBody (delete_prop data0 ''reason''))"
    using obj by (simp add: body_for_def)
  from c bf have c': "if ?u then rq_query rq = Some (delete_prop data0 ''reason'') \<and> rq_body rq = None
            else rq_query rq = None \<and> rq_body rq = Some (JsonBody (delete_prop data0 ''reason''))"
    by (simp add: carries_def)
  from t hd c' show ?thesis
    by (intro exI [of _ rq] exI [of _ tr'])
       (simp add: field_delete_prop encodeURIComponent_chars)
qed

theorem json_reason_moves_to_header_witness:
  "\<exists>rq tr.
     trace (snd (request dp0 h0 ''/channels/1/messages'' Post ''json''
                   (Obj [(''reason'', Str ''spam & eggs''), (''content'', Str ''hi'')]) 0
                   (start [respond 200 []])))
       = [Emit (RequestEv ''/channels/1/messages'' Post ''json''
                  (Obj [(''reason'', Str ''spam & eggs''), (''content'', Str ''hi'')])), Send rq] @ tr \<and>
     map_of (rq_headers rq) ''X-Audit-Log-Reason'' = Some ''spam%20%26%20eggs'' \<and>
     rq_query rq = None \<and>
     rq_body rq = Some (JsonBody (Obj [(''content'', Str ''hi'')]))"
proof -
  have a: "(0::int) < 3"
    and t: "truthy (field (Obj [(''reason'', Str ''spam & eggs''), (''content'', Str ''hi'')]) ''reason'')"
    by simp_all
  have u: "\<not> (Post = Get \<or> includes_str ''/channels/1/messages'' ''/bans''
               \<or> includes_str ''/channels/1/messages'' ''/prune'')"
    by (simp add: startsWith_def)
  have e: "encodeURIComponent (field (Obj [(''reason'', Str ''spam & eggs''), (''content'', Str ''hi'')]) ''reason'')
             = ''spam%20%26%20eggs''"
    by code_simp
  have d: "delete_prop (Obj [(''reason'', Str ''spam & eggs''), (''content'', Str ''hi'')]) ''reason''
             = Obj [(''content'', Str ''hi'')]"
    by (simp add: AList.delete_eq)
  from json_reason_moves_to_header [OF a t, of dp0 h0 "''/channels/1/messages''" Post
         "start [respond 200 []]"]
  show ?thesis
    unfolding e d using u by (auto simp: start_def)
qed

text \<open>
  Claim C3 as stated fails: a multipart dispatch with the reason "spam" sends no
  \<open>X-Audit-Log-Reason\<close> header and keeps \<open>reason\<close> in the \<open>payload_json\<close> field, and a
  JSON dispatch whose \<open>reason\<close> is the empty string sends no such header and keeps
  \<open>reason\<close> in the body.
\<close>

theorem reason_counterexample:
  "sends (snd (request dp0 h0 ''/channels/1/messages'' Post ''multipart''
                 (Obj [(''reason'', Str ''spam''), (''content'', Str ''hi'')]) 0 (start [respond 200 []])))
     = [\<lparr> rq_url = ''https://discord.com/api/v10'', rq_method = Post,
           rq_path = ''/channels/1/messages'',
           rq_headers = [(''User-Agent'', ''Discordbot''), (''Authorization'', ''Bot T''),
                         (''content-type'', ''multipart/form-data; boundary=b'')],
           rq_query = None,
           rq_body = Some (FormBody [ValueField ''payload_json''
                       (stringify (Obj [(''reason'', Str ''spam''), (''content'', Str ''hi'')]))]),
           rq_timeout = Some 15000 \<rparr>] \<and>
   sends (snd (request dp0 h0 ''/channels/1/messages'' Post ''json''
                 (Obj [(''reason'', Str []), (''content'', Str ''hi'')]) 0 (start [respond 200 []])))
     = [\<lparr> rq_url = ''https://discord.com/api/v10'', rq_method = Post,
           rq_path = ''/channels/1/messages'',
           rq_headers = [(''User-Agent'', ''Discordbot''), (''Authorization'', ''Bot T'')],
           rq_query = None,
           rq_body = Some (JsonBody (Obj [(''reason'', Str []), (''content'', Str ''hi'')])),
           rq_timeout = None \<rparr>]"
  by code_simp

subsection \<open>The multipart form\<close>

lemma append_files_eq:
  "list_all (accepted dp) fs \<Longrightarrow>
   append_files dp fs i form
     = (None, map (\<lambda>f. delete_prop f ''file'') fs, form @ map file_field (zip [i..<i + length fs] fs))"
proof (induction fs arbitrary: i form)
  case Nil
  show ?case by simp
next
  case (Cons f fs)
  have u: "[i..<i + length (f # fs)] = i # [Suc i..<Suc i + length fs]"
    by (subst upt_conv_Cons) simp_all
  from Cons.prems have "accepted dp f" and r: "list_all (accepted dp) fs"
    by simp_all
  then have a: "form_append dp (field f ''file'') (field f ''name'') = None"
    by (simp add: accepted_def)
  show ?case
    unfolding u by (simp add: a Cons.IH [OF r] file_field_def)
qed

lemma getBuffer_error_files:
  "list_all (\<lambda>p. accepted dp (snd p)) ps \<Longrightarrow>
   getBuffer_error dp (map file_field ps @ [ValueField n v]) = None"
  by (induction ps) (auto simp: file_field_def accepted_def)

lemma getBuffer_error_zip:
  "list_all (accepted dp) fs \<Longrightarrow>
   getBuffer_error dp (map file_field (zip [i..<i + length fs] fs) @ [ValueField n v]) = None"
  by (rule getBuffer_error_files) (auto simp: list_all_iff dest: set_zip_rightD)

lemma every_named_eq:
  "list_all (\<lambda>f. \<not> nullish f) fs \<Longrightarrow> every_named fs = Inr (list_all named fs)"
  by (induction fs) (auto simp: named_def)

lemma named_not_nullish: "named f \<Longrightarrow> \<not> nullish f"
  by (cases f) (auto simp: named_def nullish_def)

lemma priv_multiPartRequest_sends:
  assumes "amount < 3" and "field d ''files'' = Arr fs" and "list_all (\<lambda>f. \<not> nullish f) fs"
      and "list_all named fs \<Longrightarrow> list_all (accepted dp) fs"
  shows "\<exists>r rq w' d'.
           priv_multiPartRequest dp h endpoint method d amount w = (r, d', w') \<and>
           trace w' = trace w @ [Send rq] \<and>
           d' = (if list_all named fs
                 then set_prop d ''files'' (Arr (map (\<lambda>f. delete_prop f ''file'') fs)) else d) \<and>
           rq_body rq = Some (FormBody
             ((if list_all named fs then map file_field (zip [0..<length fs] fs) else [])
              @ [ValueField ''payload_json'' (JSON_stringify dp d')]))"
proof -
  from assms(2) have nn: "\<not> nullish d" by (cases d) (auto simp: nullish_def)
  define d' where "d' = (if list_all named fs
                 then set_prop d ''files'' (Arr (map (\<lambda>f. delete_prop f ''file'') fs)) else d)"
  define rq where "rq = \<lparr> rq_url = apiURL h, rq_method = method, rq_path = endpoint,
       rq_headers = assign (options_headers h) (form_getHeaders dp), rq_query = None,
       rq_body = Some (FormBody
             ((if list_all named fs then map file_field (zip [0..<length fs] fs) else [])
              @ [ValueField ''payload_json'' (JSON_stringify dp d')])),
       rq_timeout = Some 15000 \<rparr>"
  have eq: "priv_multiPartRequest dp h endpoint method d amount w = send rq d' w"
  proof (cases "list_all named fs")
    case True
    with assms(4) have acc: "list_all (accepted dp) fs" by simp
    from getBuffer_error_zip [OF acc, of 0] have
      "getBuffer_error dp (map file_field (zip [0..<length fs] fs)
          @ [ValueField ''payload_json'' (JSON_stringify dp d')]) = None"
      by simp
    with assms(1,2,3) nn True show ?thesis
      by (simp add: priv_multiPartRequest_def Let_def every_named_eq append_files_eq [OF acc]
                    rq_def d'_def)
  next
    case False
    with assms(1,2,3) nn show ?thesis
      by (simp add: priv_multiPartRequest_def Let_def every_named_eq rq_def d'_def)
  qed
  from send_ex [of rq d' w] obtain r w' where
    "send rq d' w = (r, d', w')" and "trace w' = trace w @ [Send rq]" by blast
  with eq show ?thesis
    by (intro exI [of _ r] exI [of _ rq] exI [of _ w'] exI [of _ d']) (simp add: rq_def d'_def)
qed

lemma multipart_first_send:
  assumes "amount < 3" and "field data0 ''files'' = Arr fs" and "list_all (\<lambda>f. \<not> nullish f) fs"
      and "list_all named fs \<Longrightarrow> list_all (accepted dp) fs"
  shows "\<exists>rq tr.
           trace (snd (request dp h endpoint method ''multipart'' data0 amount w))
             = trace w @ [Emit (RequestEv endpoint method ''multipart'' data0), Send rq] @ tr \<and>
           rq_body rq = Some (FormBody
             ((if list_all named fs then map file_field (zip [0..<length fs] fs) else [])
              @ [ValueField ''payload_json'' (JSON_stringify dp 
                   (if list_all named fs
                    then set_prop data0 ''files'' (Arr (map (\<lambda>f. delete_prop f ''file'') fs))
                    else data0))]))"
proof -
  from assms(2) obtain kvs where obj: "data0 = Obj kvs" by (cases data0) auto
  then have pa: "payload_arg data0 = data0" by (simp add: payload_arg_def)
  let ?w1 = "emit (RequestEv endpoint method ''multipart'' data0) w"
  from priv_multiPartRequest_sends [OF assms, of h endpoint "method" ?w1]
  obtain r rq w2 d' where
    ds: "dispatch_send dp h endpoint method ''multipart'' (payload_arg data0) amount
           (emit (RequestEv endpoint method ''multipart'' (payload_arg data0)) w)
         = (r, d', w2)"
    and tr: "trace w2 = trace ?w1 @ [Send rq]"
    and d': "d' = (if list_all named fs
                 then set_prop data0 ''files'' (Arr (map (\<lambda>f. delete_prop f ''file'') fs)) else data0)"
    and b: "rq_body rq = Some (FormBody
             ((if list_all named fs then map file_field (zip [0..<length fs] fs) else [])
              @ [ValueField ''payload_json'' (JSON_stringify dp d')]))"
    by (auto simp: dispatch_send_def pa)
  from request_first_effects [OF ds] tr obtain tr' where
    t: "trace (snd (request dp h endpoint method ''multipart'' data0 amount w))
          = trace w @ [Emit (RequestEv endpoint method ''multipart'' data0), Send rq] @ tr'"
    by (auto simp: emit_def)
  from t b d' show ?thesis
    by (intro exI [of _ rq] exI [of _ tr']) simp
qed

text \<open>
  Claim C8.  For a multipart dispatch (attempt counter below 3) whose payload has a
  \<open>files\<close> array of descriptors that each have a truthy \<open>name\<close> and a truthy \<open>file\<close>
  which the form-data library takes as a file under that name, the request sent has as
  body the form with one field per file, named \<open>files[0]\<close>, \<open>files[1]\<close>, ... in order,
  holding the file and its name as filename, followed by the field \<open>payload_json\<close> with
  the serialised payload in which \<open>files\<close> holds the descriptors without their \<open>file\<close>
  property.
\<close>

theorem multipart_files_form:
  assumes "amount < 3" and "field data0 ''files'' = Arr fs" and "list_all named fs"
      and "list_all (accepted dp) fs"
  shows "\<exists>rq tr.
           trace (snd (request dp h endpoint method ''multipart'' data0 amount w))
             = trace w @ [Emit (RequestEv endpoint method ''multipart'' data0), Send rq] @ tr \<and>
           rq_body rq = Some (FormBody
             (map file_field (zip [0..<length fs] fs)
              @ [ValueField ''payload_json'' (JSON_stringify dp
                   (set_prop data0 ''files'' (Arr (map (\<lambda>f. delete_prop f ''file'') fs))))])) \<and>
           field (set_prop data0 ''files'' (Arr (map (\<lambda>f. delete_prop f ''file'') fs))) ''files''
             = Arr (map (\<lambda>f. delete_prop f ''file'') fs) \<and>
           list_all (\<lambda>f'. field f' ''file'' = Undefined) (map (\<lambda>f. delete_prop f ''file'') fs)"
proof -
  from assms(3) have nn: "list_all (\<lambda>f. \<not> nullish f) fs"
    by (auto simp: list_all_iff dest: named_not_nullish)
  from assms(2) obtain kvs where obj: "data0 = Obj kvs" by (cases data0) auto
  have f: "field (set_prop data0 ''files'' (Arr (map (\<lambda>f. delete_prop f ''file'') fs))) ''files''
             = Arr (map (\<lambda>f. delete_prop f ''file'') fs)"
    by (simp add: obj update_conv')
  have s: "list_all (\<lambda>f'. field f' ''file'' = Undefined) (map (\<lambda>f. delete_prop f ''file'') fs)"
    by (simp add: list_all_iff field_delete_prop)
  from multipart_first_send [OF assms(1,2) nn assms(4), of h endpoint "method" w] assms(3) f s
  show ?thesis by auto
qed

theorem multipart_files_form_witness:
  "\<exists>rq tr.
     trace (snd (request dp0 h0 ''/channels/1/messages'' Post ''multipart''
        (Obj [(''content'', Str ''hi''),
              (''files'', Arr [Obj [(''name'', Str ''a.png''), (''file'', Str ''AAA'')],
                               Obj [(''name'', Str ''b.png''), (''file'', Str ''BBB'')]])])
        0 (start [respond 200 []])))
       = [Emit (RequestEv ''/channels/1/messages'' Post ''multipart''
            (Obj [(''content'', Str ''hi''),
              (''files'', Arr [Obj [(''name'', Str ''a.png''), (''file'', Str ''AAA'')],
                               Obj [(''name'', Str ''b.png''), (''file'', Str ''BBB'')]])])),
          Send rq] @ tr \<and>
     rq_body rq = Some (FormBody
        [FileField ''files[0]'' (Str ''AAA'') (Str ''a.png''),
         FileField ''files[1]'' (Str ''BBB'') (Str ''b.png''),
         ValueField ''payload_json''
           (stringify (Obj [(''content'', Str ''hi''),
              (''files'', Arr [Obj [(''name'', Str ''a.png'')], Obj [(''name'', Str ''b.png'')]])]))])"
proof -
  let ?fs = "[Obj [(''name'', Str ''a.png''), (''file'', Str ''AAA'')],
              Obj [(''name'', Str ''b.png''), (''file'', Str ''BBB'')]]"
  let ?d = "Obj [(''content'', Str ''hi''), (''files'', Arr ?fs)]"
  have a: "(0::int) < 3" by simp
  have f: "field ?d ''files'' = Arr ?fs" by simp
  have n: "list_all named ?fs" by (simp add: named_def)
  have c: "list_all (accepted dp0) ?fs" by (simp add: accepted_def dp0_def)
  have z: "map file_field (zip [0..<length ?fs] ?fs)
             = [FileField ''files[0]'' (Str ''AAA'') (Str ''a.png''),
                FileField ''files[1]'' (Str ''BBB'') (Str ''b.png'')]"
    by code_simp
  have s: "set_prop ?d ''files'' (Arr (map (\<lambda>f. delete_prop f ''file'') ?fs))
             = Obj [(''content'', Str ''hi''),
                 (''files'', Arr [Obj [(''name'', Str ''a.png'')], Obj [(''name'', Str ''b.png'')]])]"
    by (simp add: AList.delete_eq)
  have j: "JSON_stringify dp0 = stringify" by (simp add: dp0_def)
  from multipart_files_form [OF a f n c, of h0 "''/channels/1/messages''" Post
         "start [respond 200 []]"]
  show ?thesis
    unfolding z s j by (auto simp: start_def)
qed

text \<open>
  Where the form-data library refuses a file (here an array), the loop throws: the call is
  rejected with the library's error and nothing is sent.
\<close>

lemma multipart_refused_file:
  "request dp0 h0 ''/channels/1/messages'' Post ''multipart''
      (Obj [(''files'', Arr [Obj [(''name'', Str ''a.png''), (''file'', Arr [Num 1])]])])
      0 (start [respond 200 []])
   = (Rejected (FormDataError ''Arrays are not supported.''),
      \<lparr> script = [respond 200 []],
        trace = [Emit (RequestEv ''/channels/1/messages'' Post ''multipart''
                   (Obj [(''files'', Arr [Obj [(''name'', Str ''a.png''), (''file'', Arr [Num 1])]])])),
                 Emit (RequestErrorEv (FormDataError ''Arrays are not supported.''))] \<rparr>)"
  by code_simp

text \<open>
  Claim C10.  For a multipart dispatch (attempt counter below 3) whose \<open>files\<close> array of
  descriptors has an entry without a truthy \<open>name\<close> or without a truthy \<open>file\<close>, the form
  sent has no file field at all: its only field is \<open>payload_json\<close>, the serialisation of
  the payload as it was given, every \<open>file\<close> still in place.
\<close>

theorem multipart_files_all_or_nothing:
  assumes "amount < 3" and "field data0 ''files'' = Arr fs"
      and "list_all (\<lambda>f. \<not> nullish f) fs" and "\<not> list_all named fs"
  shows "\<exists>rq tr.
           trace (snd (request dp h endpoint method ''multipart'' data0 amount w))
             = trace w @ [Emit (RequestEv endpoint method ''multipart'' data0), Send rq] @ tr \<and>
           rq_body rq = Some (FormBody [ValueField ''payload_json'' (JSON_stringify dp data0)])"
  using multipart_first_send [OF assms(1,2,3), of dp h endpoint "method" w] assms(4)
  by auto

theorem multipart_files_all_or_nothing_witness:
  "\<exists>rq tr.
     trace (snd (request dp0 h0 ''/channels/1/messages'' Post ''multipart''
        (Obj [(''content'', Str ''hi''),
              (''files'', Arr [Obj [(''name'', Str ''a.png''), (''file'', Str ''AAA'')],
                               Obj [(''name'', Str ''b.png'')]])])
        0 (start [respond 200 []])))
       = [Emit (RequestEv ''/channels/1/messages'' Post ''multipart''
            (Obj [(''content'', Str ''hi''),
              (''files'', Arr [Obj [(''name'', Str ''a.png''), (''file'', Str ''AAA'')],
                               Obj [(''name'', Str ''b.png'')]])])),
          Send rq] @ tr \<and>
     rq_body rq = Some (FormBody
        [ValueField ''payload_json''
           (stringify (Obj [(''content'', Str ''hi''),
              (''files'', Arr [Obj [(''name'', Str ''a.png''), (''file'', Str ''AAA'')],
                               Obj [(''name'', Str ''b.png'')]])]))])"
proof -
  let ?fs = "[Obj [(''name'', Str ''a.png''), (''file'', Str ''AAA'')],
              Obj [(''name'', Str ''b.png'')]]"
  let ?d = "Obj [(''content'', Str ''hi''), (''files'', Arr ?fs)]"
  have a: "(0::int) < 3" by simp
  have f: "field ?d ''files'' = Arr ?fs" by simp
  have nn: "list_all (\<lambda>f. \<not> nullish f) ?fs" by (simp add: nullish_def)
  have n: "\<not> list_all named ?fs" by (simp add: named_def)
  have j: "JSON_stringify dp0 = stringify" by (simp add: dp0_def)
  from multipart_files_all_or_nothing [OF a f nn n, of dp0 h0 "''/channels/1/messages''" Post
         "start [respond 200 []]"]
  show ?thesis
    unfolding j by (auto simp: start_def)
qed

section \<open>Properties of DiscordAPIError\<close>

lemma foldl_collect:
  assumes "\<And>x ms. x \<in> set xs \<Longrightarrow> step (Inr ms) x = Inr (ms @ g x)"
  shows "foldl step (Inr ms0) xs = Inr (ms0 @ concat (map g xs))"
  using assms
proof (induction xs arbitrary: ms0)
  case Nil
  show ?case by simp
next
  case (Cons x xs)
  then show ?case by simp
qed

lemma flattenErrors_spec:
  "wf_errors obj \<Longrightarrow> flattenErrors obj key = Inr (spec_flattenErrors obj key)"
proof (induction obj key rule: flattenErrors.induct)
  case (1 obj key)
  from "1.prems" have nn: "\<not> nullish obj"
    and wf: "list_all (\<lambda>(k, v).
         k = ''message'' \<or>
         (\<not> nullish v \<and>
          (if truthy (field v ''_errors'')
           then (case field v ''_errors'' of
                   Arr es \<Rightarrow> list_all (\<lambda>e. \<not> nullish e) es
                 | _ \<Rightarrow> False)
           else if truthy (field v ''code'') \<or> truthy (field v ''message'') then True
           else if typeof v = ''string'' then True
           else wf_errors v)))
        (children obj)"
    by (simp_all add: wf_errors.simps [of obj])
  from nn obtain kvs where en: "entries obj = Inr kvs"
    by (cases obj) (auto simp: nullish_def)
  then have ch: "children obj = kvs" by (simp add: children_def)
  let ?line = "\<lambda>(k, v).
        if k = ''message'' then []
        else if truthy (field v ''_errors'')
        then (case field v ''_errors'' of
                Arr es \<Rightarrow> [spec_errors_line (spec_key_path key k) es]
              | _ \<Rightarrow> [])
        else if truthy (field v ''code'') \<or> truthy (field v ''message'')
        then [spec_code_message v]
        else if typeof v = ''string'' then [toString v]
        else spec_flattenErrors v (spec_key_path key k)"
  let ?step = "\<lambda>messages (k, v).
              case messages of
                Inl e \<Rightarrow> Inl e
              | Inr ms \<Rightarrow>
                  if k = ''message'' then Inr ms
                  else if nullish v then Inl TypeError
                  else if truthy (field v ''_errors'') then
                    (case errors_text (field v ''_errors'') of
                       Inl e \<Rightarrow> Inl e
                     | Inr t \<Rightarrow> Inr (ms @ [newKey key k @ '': '' @ t]))
                  else if truthy (field v ''code'') \<or> truthy (field v ''message'') then
                    Inr (ms @ [trim ((if truthy (field v ''code'') then toString (field v ''code'') @ '': '' else [])
                                     @ toString (field v ''message''))])
                  else if typeof v = ''string'' then Inr (ms @ [toString v])
                  else
                    (case flattenErrors v (newKey key k) of
                       Inl e \<Rightarrow> Inl e
                     | Inr sub \<Rightarrow> Inr (ms @ sub))"
  have nk: "newKey key k = spec_key_path key k" for k
    by (simp add: newKey_def spec_key_path_def)
  have step: "?step (Inr ms) x = Inr (ms @ ?line x)" if x: "x \<in> set kvs" for x ms
  proof -
    obtain k v where kv: "x = (k, v)" by (cases x)
    from wf x kv ch have w: "k = ''message'' \<or>
         (\<not> nullish v \<and>
          (if truthy (field v ''_errors'')
           then (case field v ''_errors'' of
                   Arr es \<Rightarrow> list_all (\<lambda>e. \<not> nullish e) es
                 | _ \<Rightarrow> False)
           else if truthy (field v ''code'') \<or> truthy (field v ''message'') then True
           else if typeof v = ''string'' then True
           else wf_errors v))"
      by (auto simp: list_all_iff)
    show ?thesis
    proof (cases "k = ''message''")
      case True
      then show ?thesis by (simp add: kv)
    next
      case False
      with w have nv: "\<not> nullish v" by simp
      consider (errs) "truthy (field v ''_errors'')"
        | (cm) "\<not> truthy (field v ''_errors'')" "truthy (field v ''code'') \<or> truthy (field v ''message'')"
        | (str) "\<not> truthy (field v ''_errors'')" "\<not> (truthy (field v ''code'') \<or> truthy (field v ''message''))"
                "typeof v = ''string''"
        | (rec) "\<not> truthy (field v ''_errors'')" "\<not> (truthy (field v ''code'') \<or> truthy (field v ''message''))"
                "typeof v \<noteq> ''string''"
        by blast
      then show ?thesis
      proof cases
        case errs
        with w False obtain es where es: "field v ''_errors'' = Arr es"
          and ok: "list_all (\<lambda>e. \<not> nullish e) es"
          by (auto split: js.splits)
        then have "errors_text (field v ''_errors'') = Inr (join (map (\<lambda>e. field e ''message'') es) '' '')"
          by (simp add: errors_text_def list_all_iff list_ex_iff)
        with errs es False nv show ?thesis
          by (simp add: kv nk spec_errors_line_def)
      next
        case cm
        with False nv show ?thesis
          by (simp add: kv spec_code_message_def)
      next
        case str
        with False nv show ?thesis by (simp add: kv)
      next
        case rec
        with w False have wv: "wf_errors v" by simp
        from "1.IH" [OF en x [unfolded kv] refl refl False nv rec(1) rec(2) rec(3) wv]
        have "flattenErrors v (newKey key k) = Inr (spec_flattenErrors v (newKey key k))" .
        with rec False nv show ?thesis
          by (simp add: kv nk)
      qed
    qed
  qed
  have "flattenErrors obj key = foldl ?step (Inr []) kvs"
    by (subst flattenErrors.simps) (simp add: en)
  also have "\<dots> = Inr ([] @ concat (map ?line kvs))"
    by (rule foldl_collect) (rule step)
  also have "concat (map ?line kvs) = spec_flattenErrors obj key"
    by (subst spec_flattenErrors.simps) (simp add: ch)
  finally show ?case by simp
qed

text \<open>
  Claim C6, as amended.  On every structured validation error object (no value to walk is
  \<open>null\<close> or \<open>undefined\<close>, a truthy \<open>_errors\<close> is an array of entries that are neither)
  \<open>flattenErrors\<close> returns, without throwing, these lines: keys named "message" are
  skipped, a value with a truthy \<open>_errors\<close> is rendered as key path, colon, and the entries'
  messages joined with spaces, a value with a truthy code or message as "code: message"
  trimmed of white space at both ends, the code left out when it is falsy, a string is
  taken as it is, anything else is walked recursively; a key path puts a key for which
  \<open>Number(k)\<close> is not NaN in brackets after its parent and any other key after a dot.  The
  constructor, applied to an error whose \<open>errors\<close> (or, without one, the error itself)
  is such an object, sets the message to the error's message and the newline-joined lines
  with a newline between them when both are there, and to the one that is there otherwise.
\<close>

theorem flattenErrors_as_specified:
  assumes "wf_errors obj"
  shows "flattenErrors obj key = Inr (spec_flattenErrors obj key) \<and>
         (\<forall>error path method status.
            \<not> nullish error \<and>
            (if truthy (field error ''errors'') then field error ''errors'' else error) = obj \<longrightarrow>
            (\<exists>e. new_DiscordAPIError path error method status = Inr e \<and>
                 err_message e =
                   (let m = field error ''message'';
                        flat = intercalate [CHR 0x0A] (spec_flattenErrors obj [])
                    in if truthy m \<and> flat \<noteq> [] then Str (toString m @ [CHR 0x0A] @ flat)
                       else if truthy m then m
                       else Str flat)))"
  using assms
  by (simp add: flattenErrors_spec new_DiscordAPIError_def Let_def)

theorem flattenErrors_as_specified_witness:
  "flattenErrors (field invalid_form_body ''errors'') []
     = Inr [''activities[0].platform: Value must be one of x. Try again.'',
            ''TOO_LONG: Too long'', ''Bad nick'', ''plain text''] \<and>
   (\<exists>e. new_DiscordAPIError ''/channels/1/messages'' invalid_form_body Post 400 = Inr e \<and>
        err_message e = Str (''Invalid Form Body'' @ [CHR 0x0A] @
            ''activities[0].platform: Value must be one of x. Try again.'' @ [CHR 0x0A] @
            ''TOO_LONG: Too long'' @ [CHR 0x0A] @ ''Bad nick'' @ [CHR 0x0A] @ ''plain text''))"
proof -
  let ?obj = "field invalid_form_body ''errors''"
  have wf: "wf_errors ?obj" by code_simp
  have sp: "spec_flattenErrors ?obj []
     = [''activities[0].platform: Value must be one of x. Try again.'',
        ''TOO_LONG: Too long'', ''Bad nick'', ''plain text'']"
    by code_simp
  have nn: "\<not> nullish invalid_form_body"
    and er: "(if truthy (field invalid_form_body ''errors'')
              then field invalid_form_body ''errors'' else invalid_form_body) = ?obj"
    and m: "field invalid_form_body ''message'' = Str ''Invalid Form Body''"
    by (simp_all add: invalid_form_body_def nullish_def)
  from flattenErrors_as_specified [OF wf, of "[]"] nn er
  have "flattenErrors ?obj [] = Inr (spec_flattenErrors ?obj [])"
    and "\<exists>e. new_DiscordAPIError ''/channels/1/messages'' invalid_form_body Post 400 = Inr e \<and>
                 err_message e =
                   (let m = field invalid_form_body ''message'';
                        flat = intercalate [CHR 0x0A] (spec_flattenErrors ?obj [])
                    in if truthy m \<and> flat \<noteq> [] then Str (toString m @ [CHR 0x0A] @ flat)
                       else if truthy m then m
                       else Str flat)"
    by blast+
  then show ?thesis
    unfolding sp m by (simp add: Let_def)
qed

text \<open>
  Claim C6 as stated fails on structured objects: the line of a code and message is
  trimmed (" m " is rendered "m", a code "X" with an empty message "X:"), a code that is
  there but falsy is left out (code 0 with message "m" is rendered "m"), and a key that
  is not a number but for which \<open>Number(k)\<close> is not NaN goes in brackets (the empty key
  under "a" gives the path "a[]").
\<close>

theorem flattenErrors_claim_counterexample:
  "flattenErrors (Obj [(''a'', Obj [(''message'', Str '' m '')])]) [] = Inr [''m''] \<and>
   claimed_flattenErrors (Obj [(''a'', Obj [(''message'', Str '' m '')])]) [] = ['' m ''] \<and>
   flattenErrors (Obj [(''a'', Obj [(''code'', Str ''X''), (''message'', Str [])])]) [] = Inr [''X:''] \<and>
   claimed_flattenErrors (Obj [(''a'', Obj [(''code'', Str ''X''), (''message'', Str [])])]) []
     = [''X: ''] \<and>
   flattenErrors (Obj [(''a'', Obj [(''code'', Num 0), (''message'', Str ''m'')])]) [] = Inr [''m''] \<and>
   claimed_flattenErrors (Obj [(''a'', Obj [(''code'', Num 0), (''message'', Str ''m'')])]) []
     = [''0: m''] \<and>
   flattenErrors
       (Obj [(''a'', Obj [([], Obj [(''_errors'', Arr [Obj [(''message'', Str ''m'')]])])])]) []
     = Inr [''a[]: m''] \<and>
   claimed_flattenErrors
       (Obj [(''a'', Obj [([], Obj [(''_errors'', Arr [Obj [(''message'', Str ''m'')]])])])]) []
     = [''a.: m'']"
  by code_simp

text \<open>
  Outside the structured objects \<open>flattenErrors\<close> throws: on a \<open>null\<close> value, on a truthy
  \<open>_errors\<close> that is not an array, and on a \<open>null\<close> entry of \<open>_errors\<close>.
\<close>

lemma flattenErrors_throws:
  "flattenErrors (Obj [(''a'', Null)]) [] = Inl TypeError \<and>
   flattenErrors (Obj [(''a'', Obj [(''_errors'', Str ''x'')])]) [] = Inl TypeError \<and>
   flattenErrors (Obj [(''a'', Obj [(''_errors'', Arr [Null])])]) [] = Inl TypeError"
  by code_simp

end
